theory Spec2Isabelle
  imports Main "HOL-Library.Word"
begin

unbundle bit_operations_syntax

section \<open>Chunk rendering of Minecraft-Overviewer (chunk.py)\<close>

subsection \<open>Errors and arrays\<close>

text \<open>
  The exceptions the module can raise. \<open>ValueError\<close>: a missing chunk file
  (\<open>ChunkRenderer.__init__\<close>) or a buffer that cannot be reshaped; \<open>IndexError\<close>: a numpy
  index outside an axis; \<open>IOError\<close>: \<open>nbt.load\<close> on a file that is not chunk data.
\<close>

datatype error = ValueError | IndexError | IOError

type_synonym byte = "8 word"

text \<open>
  A numpy array of shape \<open>(d1, d2, d3)\<close> made by \<open>numpy.frombuffer(...).reshape\<close> is
  its flat buffer in C order: cell \<open>[x, y, z]\<close> is byte \<open>(x * d2 + y) * d3 + z\<close>.
  \<open>reshape\<close> raises ValueError unless the buffer holds exactly \<open>d1 * d2 * d3\<close> bytes.
\<close>

definition reshape :: "nat \<Rightarrow> byte list \<Rightarrow> error + byte list" where
  "reshape n buf = (if length buf = n then Inr buf else Inl ValueError)"

text \<open>
  numpy indexing on one axis of length \<open>n\<close>: an index in \<open>[0, n)\<close> is itself, an index in
  \<open>[-n, 0)\<close> counts from the end, anything else raises IndexError.
\<close>

definition norm_index :: "int \<Rightarrow> int \<Rightarrow> error + nat" where
  "norm_index n i =
     (if 0 \<le> i \<and> i < n then Inr (nat i)
      else if - n \<le> i \<and> i < 0 then Inr (nat (i + n))
      else Inl IndexError)"

definition getitem3 :: "nat \<times> nat \<times> nat \<Rightarrow> byte list \<Rightarrow> int \<times> int \<times> int \<Rightarrow> error + byte" where
  "getitem3 shape a idx =
     (case shape of (d1, d2, d3) \<Rightarrow>
      case idx of (x, y, z) \<Rightarrow>
        (case norm_index (int d1) x of Inl e \<Rightarrow> Inl e | Inr i \<Rightarrow>
         case norm_index (int d2) y of Inl e \<Rightarrow> Inl e | Inr j \<Rightarrow>
         case norm_index (int d3) z of Inl e \<Rightarrow> Inl e | Inr k \<Rightarrow>
           Inr (a ! ((i * d2 + j) * d3 + k))))"

record level =
  Blocks :: "byte list"
  SkyLight :: "byte list"

definition block_shape :: "nat \<times> nat \<times> nat" where
  "block_shape = (16, 16, 128)"

definition skylight_shape :: "nat \<times> nat \<times> nat" where
  "skylight_shape = (16, 16, 64)"

definition get_blockarray :: "level \<Rightarrow> error + byte list" where
  "get_blockarray lv = reshape (16 * 16 * 128) (Blocks lv)"

definition get_skylight_array :: "level \<Rightarrow> error + byte list" where
  "get_skylight_array lv = reshape (16 * 16 * 64) (SkyLight lv)"

subsection \<open>The transparent blocks\<close>

definition transparent_blocks :: "byte set" where
  "transparent_blocks = {0, 8, 9, 18, 20, 37, 38, 39, 40, 50, 51, 52, 53, 59, 63, 64, 65, 66,
     67, 68, 69, 70, 71, 72, 74, 75, 76, 77, 79, 83, 85}"

subsection \<open>Depth colours\<close>

text \<open>
  \<open>generate_depthcolors\<close>: the loop over \<open>range(128)\<close> carries \<open>(r, g, b)\<close> and the list
  built so far; each image \<open>Image.new("RGB", (24,24), (r,g,b))\<close> is its colour. Python's
  integers are unbounded, so the channels are \<open>int\<close>.
\<close>

type_synonym colour = "int \<times> int \<times> int"

fun depth_step :: "colour list \<times> int \<times> int \<times> int \<Rightarrow> nat \<Rightarrow> colour list \<times> int \<times> int \<times> int" where
  "depth_step (acc, r, g, b) z =
     (if z < 32 then (acc @ [(r, g, b)], r, g + 7, b)
      else if z < 64 then (acc @ [(r, g, b)], r - 7, g, b)
      else if z < 96 then (acc @ [(r, g, b)], r, g, b + 7)
      else (acc @ [(r, g, b)], r, g - 7, b))"

definition generate_depthcolors :: "colour list" where
  "generate_depthcolors = fst (foldl depth_step ([], 255, 0, 0) [0..<128])"

definition depth_colors :: "colour list" where
  "depth_colors = generate_depthcolors"

fun channels_ok :: "colour \<Rightarrow> bool" where
  "channels_ok (r, g, b) = (0 \<le> r \<and> r \<le> 255 \<and> 0 \<le> g \<and> g \<le> 255 \<and> 0 \<le> b \<and> b \<le> 255)"

subsection \<open>The cave light mask\<close>

text \<open>
  A strided assignment \<open>a[:, :, s::2] = v\<close> for \<open>a\<close> of shape \<open>(16,16,128)\<close> and \<open>v\<close> of
  shape \<open>(16,16,64)\<close>: flat cell \<open>i\<close> of \<open>a\<close> is row \<open>i div 128\<close> (that is \<open>x * 16 + y\<close>),
  depth \<open>i mod 128\<close>; the cells of depth \<open>s + 2 * k\<close> take \<open>v[x, y, k]\<close>, the others stay.
\<close>

definition assign_stride2 :: "nat \<Rightarrow> byte list \<Rightarrow> byte list \<Rightarrow> byte list" where
  "assign_stride2 s a v =
     map (\<lambda>i. if (i mod 128) mod 2 = s then v ! ((i div 128) * 64 + (i mod 128) div 2) else a ! i)
       [0..<length a]"

text \<open>
  \<open>numpy.empty((16,16,128))\<close> is uninitialised; the two assignments overwrite every cell.
\<close>

definition skylight_expand :: "byte list \<Rightarrow> byte list" where
  "skylight_expand skylight =
     assign_stride2 1
       (assign_stride2 0 (replicate (16 * 16 * 128) 0) (map (\<lambda>s. s AND 0x0F) skylight))
       (map (drop_bit 4) skylight)"

text \<open>\<open>a[mask] = v\<close> for a boolean mask of the shape of \<open>a\<close>.\<close>

definition mask_assign :: "byte list \<Rightarrow> bool list \<Rightarrow> byte \<Rightarrow> byte list" where
  "mask_assign a sel v = map (\<lambda>(b, m). if m then v else b) (zip a sel)"

definition cave_blocks :: "byte list \<Rightarrow> byte list \<Rightarrow> byte list" where
  "cave_blocks blocks skylight =
     mask_assign blocks (map (\<lambda>s. s \<noteq> 0) (skylight_expand skylight)) 21"

subsection \<open>Reads of the grid\<close>

text \<open>
  A computation that reads the block array: the indices it asked for, in order, and its
  result or the exception that ended it. The list of indices is bookkeeping for the claim
  about bounds; no result depends on it.
\<close>

type_synonym 'a reading = "(int \<times> int \<times> int) list \<times> (error + 'a)"

definition done_with :: "'a \<Rightarrow> 'a reading" where
  "done_with v = ([], Inr v)"

definition then_do :: "'a reading \<Rightarrow> ('a \<Rightarrow> 'b reading) \<Rightarrow> 'b reading" where
  "then_do m f =
     (case m of
        (t, Inl e) \<Rightarrow> (t, Inl e)
      | (t, Inr v) \<Rightarrow> (case f v of (t', r) \<Rightarrow> (t @ t', r)))"

definition read_block :: "byte list \<Rightarrow> int \<times> int \<times> int \<Rightarrow> byte reading" where
  "read_block blocks idx = ([idx], getitem3 block_shape blocks idx)"

text \<open>\<open>blocks[i] not in transparent_blocks\<close>\<close>

definition not_transparent :: "byte list \<Rightarrow> int \<times> int \<times> int \<Rightarrow> bool reading" where
  "not_transparent blocks idx =
     then_do (read_block blocks idx) (\<lambda>b. done_with (b \<notin> transparent_blocks))"

text \<open>Python's \<open>and\<close>: the right operand is evaluated only when the left one is true.\<close>

definition and_also :: "bool reading \<Rightarrow> bool reading \<Rightarrow> bool reading" where
  "and_also m n = then_do m (\<lambda>a. if a then n else done_with False)"

subsection \<open>The occlusion test\<close>

text \<open>
  The \<open>if/elif\<close> chain of \<open>chunk_render\<close>; the result is True when the chain reaches a
  \<open>continue\<close>, that is when the block is not drawn.
\<close>

definition occluded :: "bool \<Rightarrow> byte list \<Rightarrow> int \<Rightarrow> int \<Rightarrow> int \<Rightarrow> bool reading" where
  "occluded cave blocks x y z =
     (if cave \<and> (x = 0 \<and> y \<noteq> 15 \<and> z \<noteq> 127) then
        and_also (not_transparent blocks (x, y + 1, z)) (not_transparent blocks (x, y, z + 1))
      else if cave \<and> (y = 15 \<and> x \<noteq> 0 \<and> z \<noteq> 127) then
        and_also (not_transparent blocks (x - 1, y, z)) (not_transparent blocks (x, y, z + 1))
      else if cave \<and> (y = 15 \<and> x = 0) then
        not_transparent blocks (x, y, z + 1)
      else
        and_also (done_with (x \<noteq> 0 \<and> y \<noteq> 15 \<and> z \<noteq> 127))
          (and_also (not_transparent blocks (x - 1, y, z))
            (and_also (not_transparent blocks (x, y + 1, z))
              (not_transparent blocks (x, y, z + 1)))))"

subsection \<open>Drawing one block\<close>

text \<open>
  The canvas is the sequence of drawing calls made on it. A paste has a source (the
  sprite's colour image, in cave mode blended with the depth colour at factor 0.3), a
  position and the sprite's alpha mask; a line has its two end points.
\<close>

datatype 'i source = Plain 'i | Blend 'i colour

datatype 'i draw = Paste "'i source" "int \<times> int" 'i | Line "int \<times> int" "int \<times> int"

type_synonym 'i canvas = "'i draw list"

text \<open>
  \<open>textures.blockmap\<close> is not part of this module: it is a parameter, \<open>None\<close> where the
  block type has no sprite.
\<close>

type_synonym 'i blockmap = "byte \<Rightarrow> ('i \<times> 'i) option"

definition line_x :: "byte list \<Rightarrow> int \<Rightarrow> int \<Rightarrow> int \<Rightarrow> int \<Rightarrow> int \<Rightarrow> 'i draw list reading" where
  "line_x blocks x y z imgx imgy =
     (if x \<noteq> 15 then
        then_do (read_block blocks (x + 1, y, z)) (\<lambda>b.
          done_with (if b = 0 then [Line (imgx + 12, imgy) (imgx + 24, imgy + 6)] else []))
      else done_with [])"

definition line_y :: "byte list \<Rightarrow> int \<Rightarrow> int \<Rightarrow> int \<Rightarrow> int \<Rightarrow> int \<Rightarrow> 'i draw list reading" where
  "line_y blocks x y z imgx imgy =
     (if y \<noteq> 0 then
        then_do (read_block blocks (x, y - 1, z)) (\<lambda>b.
          done_with (if b = 0 then [Line (imgx, imgy + 6) (imgx + 12, imgy)] else []))
      else done_with [])"

definition edge_lines :: "byte list \<Rightarrow> byte \<Rightarrow> int \<Rightarrow> int \<Rightarrow> int \<Rightarrow> int \<Rightarrow> int \<Rightarrow> 'i draw list reading" where
  "edge_lines blocks blockid x y z imgx imgy =
     (if blockid \<notin> transparent_blocks then
        then_do (line_x blocks x y z imgx imgy) (\<lambda>l1.
          then_do (line_y blocks x y z imgx imgy) (\<lambda>l2. done_with (l1 @ l2)))
      else done_with [])"

text \<open>
  The sprite as it is pasted: \<open>t[0]\<close>, or \<open>Image.blend(t[0], depth_colors[z], 0.3)\<close> in cave
  mode, where \<open>depth_colors[z]\<close> is a Python list lookup.
\<close>

definition paste_source :: "bool \<Rightarrow> 'i \<Rightarrow> int \<Rightarrow> 'i source reading" where
  "paste_source cave sprite z =
     (if cave then
        (case norm_index (int (length depth_colors)) z of
           Inl e \<Rightarrow> ([], Inl e)
         | Inr k \<Rightarrow> done_with (Blend sprite (depth_colors ! k)))
      else done_with (Plain sprite))"

text \<open>
  The body of the \<open>try\<close> for one block: the drawing calls it makes (none when it reaches a
  \<open>continue\<close>), or the exception that leaves it.
\<close>

definition render_block ::
  "bool \<Rightarrow> byte list \<Rightarrow> 'i blockmap \<Rightarrow> int \<Rightarrow> int \<Rightarrow> int \<Rightarrow> int \<Rightarrow> int \<Rightarrow> 'i draw list reading" where
  "render_block cave blocks blockmap x y z imgx imgy =
     then_do (read_block blocks (x, y, z)) (\<lambda>blockid.
       case blockmap blockid of
         None \<Rightarrow> done_with []
       | Some t \<Rightarrow>
           then_do (occluded cave blocks x y z) (\<lambda>skip.
             if skip then done_with []
             else
               then_do (paste_source cave (fst t) z) (\<lambda>src.
                 then_do (edge_lines blocks blockid x y z imgx imgy) (\<lambda>ls.
                   done_with (Paste src (imgx, imgy) (snd t) # ls)))))"

subsection \<open>The three loops\<close>

definition xrange :: "nat \<Rightarrow> int list" where
  "xrange n = map int [0..<n]"

text \<open>
  The loop over \<open>z\<close>: \<open>imgy\<close> is decremented in the \<open>finally\<close> clause, however the body
  ends; an exception leaves the loop after the decrement.
\<close>

fun z_loop ::
  "bool \<Rightarrow> byte list \<Rightarrow> 'i blockmap \<Rightarrow> int \<Rightarrow> int \<Rightarrow> int \<Rightarrow> int list \<Rightarrow> int \<Rightarrow> 'i canvas
    \<Rightarrow> error + 'i canvas" where
  "z_loop cave blocks blockmap x y imgx [] imgy img = Inr img"
| "z_loop cave blocks blockmap x y imgx (z # zs) imgy img =
     (case snd (render_block cave blocks blockmap x y z imgx imgy) of
        Inl e \<Rightarrow> Inl e
      | Inr ds \<Rightarrow> z_loop cave blocks blockmap x y imgx zs (imgy - 12) (img @ ds))"

fun y_loop ::
  "bool \<Rightarrow> byte list \<Rightarrow> 'i blockmap \<Rightarrow> int \<Rightarrow> int \<Rightarrow> int \<Rightarrow> int list \<Rightarrow> 'i canvas
    \<Rightarrow> error + 'i canvas" where
  "y_loop cave blocks blockmap xoff yoff x [] img = Inr img"
| "y_loop cave blocks blockmap xoff yoff x (y # ys) img =
     (case z_loop cave blocks blockmap x y (xoff + x * 12 + y * 12) (xrange 128)
             (yoff - x * 6 + y * 6 + 128 * 12 + 16 * 12 div 2) img of
        Inl e \<Rightarrow> Inl e
      | Inr img' \<Rightarrow> y_loop cave blocks blockmap xoff yoff x ys img')"

fun x_loop ::
  "bool \<Rightarrow> byte list \<Rightarrow> 'i blockmap \<Rightarrow> int \<Rightarrow> int \<Rightarrow> int list \<Rightarrow> 'i canvas
    \<Rightarrow> error + 'i canvas" where
  "x_loop cave blocks blockmap xoff yoff [] img = Inr img"
| "x_loop cave blocks blockmap xoff yoff (x # xs) img =
     (case y_loop cave blocks blockmap xoff yoff x (xrange 16) img of
        Inl e \<Rightarrow> Inl e
      | Inr img' \<Rightarrow> x_loop cave blocks blockmap xoff yoff xs img')"

text \<open>\<open>for x in xrange(15,-1,-1)\<close> and the loops inside it.\<close>

definition render_grid ::
  "bool \<Rightarrow> byte list \<Rightarrow> 'i blockmap \<Rightarrow> int \<Rightarrow> int \<Rightarrow> 'i canvas \<Rightarrow> error + 'i canvas" where
  "render_grid cave blocks blockmap xoff yoff img =
     x_loop cave blocks blockmap xoff yoff (rev (xrange 16)) img"

subsection \<open>Files and the renderer object\<close>

text \<open>
  The directory of the chunk file, as \<open>os.listdir\<close> gives it: names with their contents,
  in listing order. A file is chunk data (what \<open>nbt.load\<close> parses to a level), an image
  that \<open>Image.open(...).load()\<close> decodes, or anything else. \<open>os.path.split\<close>, \<open>abspath\<close> and
  \<open>join\<close> only move between a path and its (directory, name) pair: a path of this
  directory is its file name.
\<close>

datatype 'i content = ChunkData level | ImageFile "'i canvas" | Garbage

type_synonym 'i dir = "(string \<times> 'i content) list"

definition exists :: "'i dir \<Rightarrow> string \<Rightarrow> bool" where
  "exists d name = (map_of d name \<noteq> None)"

definition get_lvldata :: "'i dir \<Rightarrow> string \<Rightarrow> error + level" where
  "get_lvldata d filename =
     (case map_of d filename of
        Some (ChunkData lv) \<Rightarrow> Inr lv
      | _ \<Rightarrow> Inl IOError)"

text \<open>
  A \<open>ChunkRenderer\<close>: its file name, the two lazily set attributes \<open>_level\<close> and
  \<open>_blocks\<close>, and the numpy arrays allocated so far. An array is referred to by its
  position in \<open>arrays\<close>, so two variables holding the same position share the array.
\<close>

record renderer =
  chunkfile :: string
  level_attr :: "level option"
  blocks_attr :: "nat option"
  arrays :: "byte list list"

definition new_renderer :: "'i dir \<Rightarrow> string \<Rightarrow> error + renderer" where
  "new_renderer d name =
     (if \<not> exists d name then Inl ValueError
      else Inr \<lparr>chunkfile = name, level_attr = None, blocks_attr = None, arrays = []\<rparr>)"

definition load_level :: "'i dir \<Rightarrow> renderer \<Rightarrow> renderer \<times> (error + level)" where
  "load_level d s =
     (case level_attr s of
        Some lv \<Rightarrow> (s, Inr lv)
      | None \<Rightarrow>
          (case get_lvldata d (chunkfile s) of
             Inl e \<Rightarrow> (s, Inl e)
           | Inr lv \<Rightarrow> (s\<lparr>level_attr := Some lv\<rparr>, Inr lv)))"

definition load_blocks :: "'i dir \<Rightarrow> renderer \<Rightarrow> renderer \<times> (error + nat)" where
  "load_blocks d s =
     (case blocks_attr s of
        Some a \<Rightarrow> (s, Inr a)
      | None \<Rightarrow>
          (case load_level d s of
             (s1, Inl e) \<Rightarrow> (s1, Inl e)
           | (s1, Inr lv) \<Rightarrow>
               (case get_blockarray lv of
                  Inl e \<Rightarrow> (s1, Inl e)
                | Inr arr \<Rightarrow>
                    (s1\<lparr>arrays := arrays s1 @ [arr], blocks_attr := Some (length (arrays s1))\<rparr>,
                     Inr (length (arrays s1))))))"

text \<open>
  \<open>chunk_render\<close>. In cave mode \<open>blocks.copy()\<close> allocates a new array, the local variable
  \<open>blocks\<close> then refers to it, and the masked assignment writes into the array that
  \<open>blocks\<close> refers to. \<open>img\<close> is \<open>None\<close> for the default argument.
\<close>

definition chunk_render ::
  "'i blockmap \<Rightarrow> 'i dir \<Rightarrow> renderer \<Rightarrow> 'i canvas option \<Rightarrow> int \<Rightarrow> int \<Rightarrow> bool
    \<Rightarrow> renderer \<times> (error + 'i canvas)" where
  "chunk_render blockmap d s img xoff yoff cave =
     (case load_blocks d s of
        (s1, Inl e) \<Rightarrow> (s1, Inl e)
      | (s1, Inr a) \<Rightarrow>
          if cave then
            (case load_level d s1 of
               (s2, Inl e) \<Rightarrow> (s2, Inl e)
             | (s2, Inr lv) \<Rightarrow>
                 (case get_skylight_array lv of
                    Inl e \<Rightarrow> (s2, Inl e)
                  | Inr skylight \<Rightarrow>
                      let skylight_expanded = skylight_expand skylight;
                          c = length (arrays s2);
                          s3 = s2\<lparr>arrays := arrays s2 @ [arrays s2 ! a]\<rparr>;
                          s4 = s3\<lparr>arrays := (arrays s3)
                                 [c := mask_assign (arrays s3 ! c)
                                         (map (\<lambda>v. v \<noteq> 0) skylight_expanded) 21]\<rparr>
                      in (s4, render_grid True (arrays s4 ! c) blockmap xoff yoff
                                (case img of None \<Rightarrow> [] | Some i \<Rightarrow> i))))
          else
            (s1, render_grid False (arrays s1 ! a) blockmap xoff yoff
                   (case img of None \<Rightarrow> [] | Some i \<Rightarrow> i)))"

subsection \<open>The render cache\<close>

text \<open>\<open>str.split(".")\<close> and \<open>".".join\<close>.\<close>

fun split_dot :: "string \<Rightarrow> string list" where
  "split_dot [] = [[]]"
| "split_dot (c # cs) =
     (if c = CHR ''.'' then [] # split_dot cs
      else (case split_dot cs of [] \<Rightarrow> [[c]] | p # ps \<Rightarrow> (c # p) # ps))"

fun join_dot :: "string list \<Rightarrow> string" where
  "join_dot [] = []"
| "join_dot [p] = p"
| "join_dot (p # q # ps) = p @ ''.'' @ join_dot (q # ps)"

definition startswith :: "string \<Rightarrow> string \<Rightarrow> bool" where
  "startswith s p = (take (length p) s = p)"

definition endswith :: "string \<Rightarrow> string \<Rightarrow> bool" where
  "endswith s p = (length p \<le> length s \<and> drop (length s - length p) s = p)"

definition mode_name :: "bool \<Rightarrow> string" where
  "mode_name cave = (if cave then ''cave'' else ''nocave'')"

definition chunk_blockid :: "string \<Rightarrow> string" where
  "chunk_blockid filename = join_dot (take 2 (drop 1 (split_dot filename)))"

text \<open>The prefix \<open>"img.{0}.{1}."\<close> of the cache files of one chunk and mode.\<close>

definition cache_prefix :: "string \<Rightarrow> bool \<Rightarrow> string" where
  "cache_prefix blockid cave = ''img.'' @ blockid @ ''.'' @ mode_name cave @ ''.''"

definition is_old_image :: "string \<Rightarrow> bool \<Rightarrow> string \<Rightarrow> bool" where
  "is_old_image blockid cave oldimg =
     (startswith oldimg (cache_prefix blockid cave) \<and> endswith oldimg ''.png'')"

text \<open>
  What the module does to the world outside it: the directory, and a log of the renders
  started, the files saved and the files unlinked.
\<close>

datatype event = Rendered | Saved string | Unlinked string

record 'i world =
  files :: "'i dir"
  events :: "event list"

definition unlink :: "string \<Rightarrow> 'i world \<Rightarrow> 'i world" where
  "unlink name w =
     w\<lparr>files := filter (\<lambda>(n, f). n \<noteq> name) (files w), events := events w @ [Unlinked name]\<rparr>"

definition save :: "string \<Rightarrow> 'i canvas \<Rightarrow> 'i world \<Rightarrow> 'i world" where
  "save name img w =
     w\<lparr>files := (if exists (files w) name
                  then map (\<lambda>(n, f). if n = name then (n, ImageFile img) else (n, f)) (files w)
                  else files w @ [(name, ImageFile img)]),
       events := events w @ [Saved name]\<rparr>"

text \<open>The loop over \<open>os.listdir(destdir)\<close>, left by \<open>break\<close> after the first unlink.\<close>

fun remove_old :: "string \<Rightarrow> bool \<Rightarrow> string list \<Rightarrow> 'i world \<Rightarrow> 'i world" where
  "remove_old blockid cave [] w = w"
| "remove_old blockid cave (oldimg # rest) w =
     (if is_old_image blockid cave oldimg then unlink oldimg w
      else remove_old blockid cave rest w)"

text \<open>
  \<open>hashlib.md5\<close> is a parameter: \<open>md5_hex\<close> maps the bytes fed to \<open>update\<close> to the
  hexadecimal digest. The second \<open>update\<close> feeds the one character \<open>"1"\<close>.
\<close>

definition hash_blockarray :: "(byte list \<Rightarrow> string) \<Rightarrow> level \<Rightarrow> string" where
  "hash_blockarray md5_hex lv = take 6 (md5_hex (Blocks lv @ [0x31]))"

definition dest_filename :: "(byte list \<Rightarrow> string) \<Rightarrow> string \<Rightarrow> bool \<Rightarrow> level \<Rightarrow> string" where
  "dest_filename md5_hex filename cave lv =
     ''img.'' @ chunk_blockid filename @ ''.'' @ mode_name cave @ ''.''
       @ hash_blockarray md5_hex lv @ ''.png''"

text \<open>The part of \<open>ChunkRenderer.render_and_save\<close> after the two branches on the cache file.\<close>

definition render_to ::
  "'i blockmap \<Rightarrow> string \<Rightarrow> bool \<Rightarrow> renderer \<Rightarrow> 'i world \<Rightarrow> renderer \<times> 'i world \<times> (error + string)" where
  "render_to blockmap dest_path cave s w =
     (let w1 = w\<lparr>events := events w @ [Rendered]\<rparr> in
      case chunk_render blockmap (files w1) s None 0 0 cave of
        (s', Inl e) \<Rightarrow> (s', w1, Inl e)
      | (s', Inr img) \<Rightarrow> (s', save dest_path img w1, Inr dest_path))"

definition renderer_render_and_save ::
  "(byte list \<Rightarrow> string) \<Rightarrow> 'i blockmap \<Rightarrow> renderer \<Rightarrow> 'i world \<Rightarrow> bool
    \<Rightarrow> renderer \<times> 'i world \<times> (error + string)" where
  "renderer_render_and_save md5_hex blockmap s w cave =
     (case load_level (files w) s of
        (s1, Inl e) \<Rightarrow> (s1, w, Inl e)
      | (s1, Inr lv) \<Rightarrow>
          let blockid = chunk_blockid (chunkfile s1);
              dest_path = dest_filename md5_hex (chunkfile s1) cave lv
          in
            if exists (files w) dest_path then
              (case map_of (files w) dest_path of
                 Some (ImageFile testimg) \<Rightarrow> (s1, w, Inr dest_path)
               | _ \<Rightarrow> render_to blockmap dest_path cave s1 w)
            else
              render_to blockmap dest_path cave s1
                (remove_old blockid cave (map fst (files w)) w))"

text \<open>The module's \<open>render_and_save\<close>: a new \<open>ChunkRenderer\<close> for each call.\<close>

definition render_and_save ::
  "(byte list \<Rightarrow> string) \<Rightarrow> 'i blockmap \<Rightarrow> string \<Rightarrow> bool \<Rightarrow> 'i world
    \<Rightarrow> 'i world \<times> (error + string)" where
  "render_and_save md5_hex blockmap name cave w =
     (case new_renderer (files w) name of
        Inl e \<Rightarrow> (w, Inl e)
      | Inr a \<Rightarrow> snd (renderer_render_and_save md5_hex blockmap a w cave))"

subsection \<open>Notions used to state the properties\<close>

text \<open>A position of the grid: \<open>x\<close> and \<open>y\<close> in \<open>[0, 16)\<close>, \<open>z\<close> in \<open>[0, 128)\<close>.\<close>

definition in_grid :: "int \<times> int \<times> int \<Rightarrow> bool" where
  "in_grid idx =
     (case idx of (x, y, z) \<Rightarrow> 0 \<le> x \<and> x < 16 \<and> 0 \<le> y \<and> y < 16 \<and> 0 \<le> z \<and> z < 128)"

text \<open>The cell at an index holds a type that is not transparent.\<close>

definition holds_opaque :: "byte list \<Rightarrow> int \<times> int \<times> int \<Rightarrow> bool" where
  "holds_opaque blocks idx =
     (case getitem3 block_shape blocks idx of
        Inl e \<Rightarrow> False
      | Inr b \<Rightarrow> b \<notin> transparent_blocks)"

text \<open>A block is drawn when its body ends normally and has pasted the sprite.\<close>

fun drawn :: "'i draw list reading \<Rightarrow> bool" where
  "drawn (t, Inr (Paste src pos m # ls)) = True"
| "drawn r = False"

text \<open>
  The projection as the specification writes it, the order in which the three loops visit
  the grid, and the painting of a list of positions, each at its projected place.
\<close>

definition projector :: "int \<Rightarrow> int \<Rightarrow> int \<times> int \<times> int \<Rightarrow> int \<times> int" where
  "projector xoff yoff idx =
     (case idx of (x, y, z) \<Rightarrow>
        (xoff + x * 12 + y * 12, yoff - x * 6 + y * 6 + 128 * 12 + 16 * 12 div 2 - z * 12))"

definition traversal :: "(int \<times> int \<times> int) list" where
  "traversal =
     concat (map (\<lambda>x. concat (map (\<lambda>y. map (\<lambda>z. (x, y, z)) (xrange 128)) (xrange 16)))
       (rev (xrange 16)))"

fun paint_all ::
  "bool \<Rightarrow> byte list \<Rightarrow> 'i blockmap \<Rightarrow> int \<Rightarrow> int \<Rightarrow> (int \<times> int \<times> int) list \<Rightarrow> 'i canvas
    \<Rightarrow> error + 'i canvas" where
  "paint_all cave blocks blockmap xoff yoff [] img = Inr img"
| "paint_all cave blocks blockmap xoff yoff (idx # rest) img =
     (case idx of (x, y, z) \<Rightarrow>
      case projector xoff yoff idx of (imgx, imgy) \<Rightarrow>
      case snd (render_block cave blocks blockmap x y z imgx imgy) of
        Inl e \<Rightarrow> Inl e
      | Inr ds \<Rightarrow> paint_all cave blocks blockmap xoff yoff rest (img @ ds))"

fun paste_positions :: "'i draw list \<Rightarrow> (int \<times> int) list" where
  "paste_positions [] = []"
| "paste_positions (Paste src pos m # ds) = pos # paste_positions ds"
| "paste_positions (Line p q # ds) = paste_positions ds"

text \<open>Every index a computation asked for is a position of the grid.\<close>

definition reads_in_grid :: "'a reading \<Rightarrow> bool" where
  "reads_in_grid r = list_all in_grid (fst r)"

text \<open>
  The expanded skylight value of a cell, as the specification words it: the low four bits
  of packed byte \<open>z div 2\<close> when \<open>z\<close> is even, the high four bits when \<open>z\<close> is odd.
\<close>

definition skylight_nibble :: "byte list \<Rightarrow> int \<times> int \<times> int \<Rightarrow> error + byte" where
  "skylight_nibble skylight idx =
     (case idx of (x, y, z) \<Rightarrow>
      case getitem3 skylight_shape skylight (x, y, z div 2) of
        Inl e \<Rightarrow> Inl e
      | Inr s \<Rightarrow> Inr (if z mod 2 = 0 then s AND 0x0F else drop_bit 4 s))"

text \<open>
  A renderer whose \<open>_blocks\<close> attribute, when set, refers to an array that exists; and the
  value of the property \<open>self.blocks\<close> in a state: the array \<open>_blocks\<close> refers to, or the
  one that loading would give.
\<close>

definition wf_renderer :: "renderer \<Rightarrow> bool" where
  "wf_renderer s = (case blocks_attr s of None \<Rightarrow> True | Some a \<Rightarrow> a < length (arrays s))"

definition current_blocks :: "'i dir \<Rightarrow> renderer \<Rightarrow> error + byte list" where
  "current_blocks d s =
     (case load_blocks d s of
        (s1, Inl e) \<Rightarrow> Inl e
      | (s1, Inr a) \<Rightarrow> Inr (arrays s1 ! a))"

text \<open>
  Counting what the cache does: the cache files of one chunk and mode in a directory, the
  renders and saves in a log; whether the expected cache file of a chunk is present and
  decodable, whether it is absent, and whether a call has to render (the chunk file is
  readable and its cache file is not present and decodable); and the chunk file being
  rewritten with new level data (by the game, between two runs).
\<close>

definition cache_count :: "string \<Rightarrow> bool \<Rightarrow> 'i dir \<Rightarrow> nat" where
  "cache_count blockid cave d = length (filter (is_old_image blockid cave) (map fst d))"

definition renders :: "event list \<Rightarrow> nat" where
  "renders evs = length (filter (\<lambda>e. e = Rendered) evs)"

fun is_save :: "event \<Rightarrow> bool" where
  "is_save (Saved n) = True"
| "is_save e = False"

definition saves :: "event list \<Rightarrow> nat" where
  "saves evs = length (filter is_save evs)"

definition cached :: "(byte list \<Rightarrow> string) \<Rightarrow> string \<Rightarrow> bool \<Rightarrow> 'i world \<Rightarrow> bool" where
  "cached md5_hex name cave w =
     (case get_lvldata (files w) name of
        Inl e \<Rightarrow> False
      | Inr lv \<Rightarrow>
          (case map_of (files w) (dest_filename md5_hex name cave lv) of
             Some (ImageFile img) \<Rightarrow> True
           | _ \<Rightarrow> False))"

definition expected_missing :: "(byte list \<Rightarrow> string) \<Rightarrow> string \<Rightarrow> bool \<Rightarrow> 'i world \<Rightarrow> bool" where
  "expected_missing md5_hex name cave w =
     (case get_lvldata (files w) name of
        Inl e \<Rightarrow> False
      | Inr lv \<Rightarrow> \<not> exists (files w) (dest_filename md5_hex name cave lv))"

definition render_needed :: "(byte list \<Rightarrow> string) \<Rightarrow> string \<Rightarrow> bool \<Rightarrow> 'i world \<Rightarrow> bool" where
  "render_needed md5_hex name cave w =
     (case get_lvldata (files w) name of
        Inl e \<Rightarrow> False
      | Inr lv \<Rightarrow> \<not> cached md5_hex name cave w)"

definition put_chunk :: "string \<Rightarrow> level \<Rightarrow> 'i world \<Rightarrow> 'i world" where
  "put_chunk name lv w =
     w\<lparr>files := map (\<lambda>(n, f). if n = name then (n, ChunkData lv) else (n, f)) (files w)\<rparr>"

text \<open>
  Example inputs: a chunk of air with no skylight, a texture table without sprites, and a
  digest function standing for \<open>hashlib.md5\<close> at these inputs.
\<close>

definition air_level :: level where
  "air_level = \<lparr>Blocks = replicate (16 * 16 * 128) 0, SkyLight = replicate (16 * 16 * 64) 0\<rparr>"

definition no_sprites :: "nat blockmap" where
  "no_sprites b = None"

definition digest_stub :: "byte list \<Rightarrow> string" where
  "digest_stub bs = ''c0ffee00000000000000000000000000''"

text \<open>
  A chunk of air with one block of type 1 at the corner \<open>(0, 15, 127)\<close> (flat index 2047)
  and no skylight, and a texture table with a sprite for type 1 only.
\<close>

definition corner_level :: level where
  "corner_level =
     \<lparr>Blocks = (replicate (16 * 16 * 128) 0)[2047 := 1], SkyLight = replicate (16 * 16 * 64) 0\<rparr>"

definition stone_sprite :: "nat blockmap" where
  "stone_sprite b = (if b = 1 then Some (0, 0) else None)"

section \<open>Properties\<close>

subsection \<open>Indexing and reading\<close>

lemma norm_index_in: "0 \<le> i \<Longrightarrow> i < n \<Longrightarrow> norm_index n i = Inr (nat i)"
  by (simp add: norm_index_def)

lemma getitem3_block_in:
  "in_grid (x, y, z) \<Longrightarrow>
   getitem3 block_shape a (x, y, z) = Inr (a ! ((nat x * 16 + nat y) * 128 + nat z))"
  by (simp add: in_grid_def getitem3_def block_shape_def norm_index_in)

lemma flat_index_less:
  "in_grid (x, y, z) \<Longrightarrow> (nat x * 16 + nat y) * 128 + nat z < 32768"
  by (simp add: in_grid_def) arith

lemma length_depth_colors: "length depth_colors = 128"
  unfolding depth_colors_def generate_depthcolors_def by code_simp

lemma snd_done_with: "snd (done_with v) = Inr v"
  by (simp add: done_with_def)

lemma and_also_guard: "and_also (done_with c) n = (if c then n else done_with False)"
  by (cases n) (simp add: and_also_def then_do_def done_with_def)

lemma not_transparent_in:
  "in_grid idx \<Longrightarrow> not_transparent blocks idx = ([idx], Inr (holds_opaque blocks idx))"
  by (cases idx)
    (simp add: not_transparent_def then_do_def done_with_def read_block_def holds_opaque_def
      getitem3_block_in)

lemma holds_opaque_replicate:
  assumes "in_grid idx"
  shows "holds_opaque (replicate 32768 b) idx = (b \<notin> transparent_blocks)"
proof -
  obtain x y z where i: "idx = (x, y, z)" by (cases idx)
  have "replicate 32768 b ! ((nat x * 16 + nat y) * 128 + nat z) = b"
    using assms unfolding i by (intro nth_replicate flat_index_less)
  then show ?thesis using assms unfolding i
    by (simp only: holds_opaque_def getitem3_block_in sum.case)
qed

subsection \<open>The occlusion test in normal mode\<close>

lemma occluded_normal:
  assumes "in_grid (x, y, z)"
  shows "snd (occluded False blocks x y z) =
     Inr (x \<noteq> 0 \<and> y \<noteq> 15 \<and> z \<noteq> 127 \<and> holds_opaque blocks (x - 1, y, z)
             \<and> holds_opaque blocks (x, y + 1, z) \<and> holds_opaque blocks (x, y, z + 1))"
proof (cases "x \<noteq> 0 \<and> y \<noteq> 15 \<and> z \<noteq> 127")
  case False
  then show ?thesis by (auto simp add: occluded_def and_also_guard snd_done_with)
next
  case True
  with assms have "in_grid (x - 1, y, z)" "in_grid (x, y + 1, z)" "in_grid (x, y, z + 1)"
    by (simp_all add: in_grid_def)
  then show ?thesis using True
    by (simp add: occluded_def and_also_guard not_transparent_in and_also_def then_do_def
        done_with_def)
qed

lemma line_x_total:
  assumes "in_grid (x, y, z)"
  shows "\<exists>t ls. (line_x blocks x y z imgx imgy :: 'i draw list reading) = (t, Inr ls)"
proof (cases "x = 15")
  case True
  then show ?thesis by (simp add: line_x_def done_with_def)
next
  case False
  with assms have "in_grid (x + 1, y, z)" by (simp add: in_grid_def)
  then show ?thesis using False
    by (simp add: line_x_def done_with_def then_do_def read_block_def getitem3_block_in)
qed

lemma line_y_total:
  assumes "in_grid (x, y, z)"
  shows "\<exists>t ls. (line_y blocks x y z imgx imgy :: 'i draw list reading) = (t, Inr ls)"
proof (cases "y = 0")
  case True
  then show ?thesis by (simp add: line_y_def done_with_def)
next
  case False
  with assms have "in_grid (x, y - 1, z)" by (simp add: in_grid_def)
  then show ?thesis using False
    by (simp add: line_y_def done_with_def then_do_def read_block_def getitem3_block_in)
qed

lemma edge_lines_total:
  assumes "in_grid (x, y, z)"
  shows "\<exists>t ls. (edge_lines blocks b x y z imgx imgy :: 'i draw list reading) = (t, Inr ls)"
proof -
  from line_x_total [OF assms] obtain t1 l1
    where 1: "(line_x blocks x y z imgx imgy :: 'i draw list reading) = (t1, Inr l1)"
    by blast
  from line_y_total [OF assms] obtain t2 l2
    where 2: "(line_y blocks x y z imgx imgy :: 'i draw list reading) = (t2, Inr l2)"
    by blast
  show ?thesis by (simp add: edge_lines_def 1 2 then_do_def done_with_def)
qed

lemma render_block_normal:
  assumes g: "in_grid (x, y, z)"
    and b: "getitem3 block_shape blocks (x, y, z) = Inr b" and t: "blockmap b = Some t"
    and o: "snd (occluded False blocks x y z) = Inr skip"
  shows "\<exists>ls. snd (render_block False blocks (blockmap :: 'i blockmap) x y z imgx imgy) =
           Inr (if skip then [] else Paste (Plain (fst t)) (imgx, imgy) (snd t) # ls)"
proof -
  from edge_lines_total [OF g] obtain u ls where
    e: "(edge_lines blocks b x y z imgx imgy :: 'i draw list reading) = (u, Inr ls)" by blast
  obtain v where v: "occluded False blocks x y z = (v, Inr skip)"
    using o by (cases "occluded False blocks x y z") simp
  have "snd (render_block False blocks blockmap x y z imgx imgy) =
           Inr (if skip then [] else Paste (Plain (fst t)) (imgx, imgy) (snd t) # ls)"
    by (simp add: render_block_def read_block_def b t v e then_do_def done_with_def
        paste_source_def)
  then show ?thesis ..
qed

lemma drawn_snd: "drawn r = drawn ([], snd r)"
  by (cases r rule: drawn.cases) simp_all

text \<open>
  C2. In normal mode, a block of the grid that has a sprite is drawn if and only if it is
  not the case that \<open>x \<noteq> 0\<close>, \<open>y \<noteq> 15\<close>, \<open>z \<noteq> 127\<close> and the three cells \<open>(x-1,y,z)\<close>,
  \<open>(x,y+1,z)\<close>, \<open>(x,y,z+1)\<close> all hold types that are not transparent; a block that is not
  drawn is skipped without an exception. So in a grid filled with one opaque type, the
  blocks with \<open>x = 0\<close> or \<open>y = 15\<close> or \<open>z = 127\<close> are drawn and all others are skipped.
\<close>

theorem normal_mode_visibility:
  assumes g: "in_grid (x, y, z)"
    and b: "getitem3 block_shape blocks (x, y, z) = Inr b"
    and t: "blockmap b = Some t"
  shows "(drawn (render_block False blocks blockmap x y z imgx imgy) \<longleftrightarrow>
            \<not> (x \<noteq> 0 \<and> y \<noteq> 15 \<and> z \<noteq> 127 \<and> holds_opaque blocks (x - 1, y, z)
                 \<and> holds_opaque blocks (x, y + 1, z) \<and> holds_opaque blocks (x, y, z + 1)))
       \<and> (\<not> drawn (render_block False blocks blockmap x y z imgx imgy) \<longleftrightarrow>
            snd (render_block False blocks blockmap x y z imgx imgy) = Inr [])
       \<and> (b \<notin> transparent_blocks \<and> blocks = replicate (16 * 16 * 128) b \<longrightarrow>
            (drawn (render_block False blocks blockmap x y z imgx imgy) \<longleftrightarrow>
               x = 0 \<or> y = 15 \<or> z = 127))"
proof -
  let ?r = "render_block False blocks blockmap x y z imgx imgy"
  let ?skip = "x \<noteq> 0 \<and> y \<noteq> 15 \<and> z \<noteq> 127 \<and> holds_opaque blocks (x - 1, y, z)
                 \<and> holds_opaque blocks (x, y + 1, z) \<and> holds_opaque blocks (x, y, z + 1)"
  from render_block_normal [where blockmap = blockmap, OF g b t occluded_normal [OF g]]
  obtain ls where
    r: "snd ?r = Inr (if ?skip then [] else Paste (Plain (fst t)) (imgx, imgy) (snd t) # ls)"
    by blast
  have d: "drawn ?r \<longleftrightarrow> \<not> ?skip"
    by (subst drawn_snd) (simp add: r)
  have e: "\<not> drawn ?r \<longleftrightarrow> snd ?r = Inr []"
    by (subst drawn_snd) (simp add: r)
  have u: "drawn ?r \<longleftrightarrow> x = 0 \<or> y = 15 \<or> z = 127"
    if o: "b \<notin> transparent_blocks" and f: "blocks = replicate (16 * 16 * 128) b"
  proof (cases "x \<noteq> 0 \<and> y \<noteq> 15 \<and> z \<noteq> 127")
    case False
    then show ?thesis using d by blast
  next
    case True
    with g have "in_grid (x - 1, y, z)" "in_grid (x, y + 1, z)" "in_grid (x, y, z + 1)"
      by (simp_all add: in_grid_def)
    then have "?skip" using True o f by (simp add: holds_opaque_replicate)
    then show ?thesis using d True by blast
  qed
  from d e u show ?thesis by blast
qed

theorem normal_mode_visibility_witness:
  "in_grid (3, 4, 5)
   \<and> getitem3 block_shape (replicate (16 * 16 * 128) 1) (3, 4, 5) = Inr 1
   \<and> (\<lambda>b. Some (0 :: nat, 0 :: nat)) (1 :: byte) = Some (0, 0)
   \<and> 1 \<notin> transparent_blocks
   \<and> \<not> drawn (render_block False (replicate (16 * 16 * 128) 1) (\<lambda>b. Some (0 :: nat, 0 :: nat))
               3 4 5 0 0)
   \<and> drawn (render_block False (replicate (16 * 16 * 128) 1) (\<lambda>b. Some (0 :: nat, 0 :: nat))
               0 4 5 0 0)"
proof -
  have g: "in_grid (3, 4, 5)" and g': "in_grid (0, 4, 5)"
    by (simp_all add: in_grid_def)
  have b: "getitem3 block_shape (replicate (16 * 16 * 128) 1) (3, 4, 5) = Inr 1"
    and b': "getitem3 block_shape (replicate (16 * 16 * 128) 1) (0, 4, 5) = Inr 1"
    by (simp_all add: getitem3_def block_shape_def norm_index_def)
  have t: "(\<lambda>b. Some (0 :: nat, 0 :: nat)) (1 :: byte) = Some (0, 0)"
    by simp
  have o: "(1 :: byte) \<notin> transparent_blocks"
    by (simp add: transparent_blocks_def)
  have f: "replicate (16 * 16 * 128) (1 :: byte) = replicate (16 * 16 * 128) 1" ..
  note v = normal_mode_visibility [where blockmap = "\<lambda>b. Some (0 :: nat, 0 :: nat)"
      and imgx = 0 and imgy = 0, OF _ _ t]
  from v [OF g b, THEN conjunct2, THEN conjunct2, rule_format, OF conjI, OF o f]
  have 1: "\<not> drawn (render_block False (replicate (16 * 16 * 128) 1)
                     (\<lambda>b. Some (0 :: nat, 0 :: nat)) 3 4 5 0 0)"
    by simp
  from v [OF g' b', THEN conjunct2, THEN conjunct2, rule_format, OF conjI, OF o f]
  have 2: "drawn (render_block False (replicate (16 * 16 * 128) 1)
                   (\<lambda>b. Some (0 :: nat, 0 :: nat)) 0 4 5 0 0)"
    by simp
  from g b t o 1 2 show ?thesis by blast
qed

subsection \<open>The indices read\<close>

lemma reads_done_with: "reads_in_grid (done_with v)"
  by (simp add: reads_in_grid_def done_with_def)

lemma reads_then_do:
  "reads_in_grid m \<Longrightarrow> (\<And>v. snd m = Inr v \<Longrightarrow> reads_in_grid (f v)) \<Longrightarrow> reads_in_grid (then_do m f)"
  by (cases m) (auto simp add: reads_in_grid_def then_do_def split: sum.splits prod.splits)

lemma reads_read_block: "in_grid idx \<Longrightarrow> reads_in_grid (read_block blocks idx)"
  by (simp add: reads_in_grid_def read_block_def)

lemma reads_not_transparent: "in_grid idx \<Longrightarrow> reads_in_grid (not_transparent blocks idx)"
  by (simp add: not_transparent_def reads_then_do reads_read_block reads_done_with)

lemma reads_and_also: "reads_in_grid m \<Longrightarrow> reads_in_grid n \<Longrightarrow> reads_in_grid (and_also m n)"
  by (simp add: and_also_def reads_then_do reads_done_with)

lemma reads_occluded_normal:
  assumes "in_grid (x, y, z)"
  shows "reads_in_grid (occluded False blocks x y z)"
proof (cases "x \<noteq> 0 \<and> y \<noteq> 15 \<and> z \<noteq> 127")
  case False
  then show ?thesis by (auto simp add: occluded_def and_also_guard reads_done_with)
next
  case True
  with assms have "in_grid (x - 1, y, z)" "in_grid (x, y + 1, z)" "in_grid (x, y, z + 1)"
    by (simp_all add: in_grid_def)
  then show ?thesis using True
    by (simp add: occluded_def and_also_guard reads_and_also reads_not_transparent)
qed

lemma reads_occluded_cave:
  assumes g: "in_grid (x, y, z)" and c: "\<not> (x = 0 \<and> y = 15 \<and> z = 127)"
  shows "reads_in_grid (occluded True blocks x y z)"
proof -
  have 1: "in_grid (x - 1, y, z)" if "x \<noteq> 0" using g that by (simp add: in_grid_def)
  have 2: "in_grid (x, y + 1, z)" if "y \<noteq> 15" using g that by (simp add: in_grid_def)
  have 3: "in_grid (x, y, z + 1)" if "z \<noteq> 127" using g that by (simp add: in_grid_def)
  show ?thesis
    using c 1 2 3
    by (auto simp add: occluded_def and_also_guard reads_and_also reads_not_transparent
        reads_done_with)
qed

lemma reads_line_x:
  assumes "in_grid (x, y, z)"
  shows "reads_in_grid (line_x blocks x y z imgx imgy)"
proof (cases "x = 15")
  case True
  then show ?thesis by (simp add: line_x_def reads_done_with)
next
  case False
  with assms have "in_grid (x + 1, y, z)" by (simp add: in_grid_def)
  then show ?thesis using False
    by (simp add: line_x_def reads_then_do reads_read_block reads_done_with)
qed

lemma reads_line_y:
  assumes "in_grid (x, y, z)"
  shows "reads_in_grid (line_y blocks x y z imgx imgy)"
proof (cases "y = 0")
  case True
  then show ?thesis by (simp add: line_y_def reads_done_with)
next
  case False
  with assms have "in_grid (x, y - 1, z)" by (simp add: in_grid_def)
  then show ?thesis using False
    by (simp add: line_y_def reads_then_do reads_read_block reads_done_with)
qed

lemma reads_edge_lines:
  "in_grid (x, y, z) \<Longrightarrow> reads_in_grid (edge_lines blocks b x y z imgx imgy)"
  by (simp add: edge_lines_def reads_then_do reads_line_x reads_line_y reads_done_with)

lemma reads_paste_source: "reads_in_grid (paste_source cave sprite z)"
  by (simp add: paste_source_def done_with_def reads_in_grid_def split: sum.splits)

lemma reads_render_block:
  assumes g: "in_grid (x, y, z)"
    and o: "reads_in_grid (occluded cave blocks x y z)"
  shows "reads_in_grid (render_block cave blocks blockmap x y z imgx imgy)"
  unfolding render_block_def
  by (intro reads_then_do reads_read_block g)
    (auto intro!: reads_then_do reads_done_with o reads_paste_source reads_edge_lines g
      split: option.splits)

lemma reads_render_block_normal:
  "in_grid (x, y, z) \<Longrightarrow> reads_in_grid (render_block False blocks blockmap x y z imgx imgy)"
  by (simp add: reads_render_block reads_occluded_normal)

lemma reads_render_block_cave:
  "in_grid (x, y, z) \<Longrightarrow> \<not> (x = 0 \<and> y = 15 \<and> z = 127) \<Longrightarrow>
   reads_in_grid (render_block True blocks blockmap x y z imgx imgy)"
  by (simp add: reads_render_block reads_occluded_cave)

subsection \<open>The projection\<close>

lemma paint_all_append:
  "paint_all cave blocks bm xoff yoff (as @ bs) img =
     (case paint_all cave blocks bm xoff yoff as img of
        Inl e \<Rightarrow> Inl e
      | Inr img' \<Rightarrow> paint_all cave blocks bm xoff yoff bs img')"
  by (induction as arbitrary: img) (auto split: sum.splits prod.splits)

lemma z_loop_closed:
  "z_loop cave blocks bm x y (xoff + x * 12 + y * 12) (map int [k..<k + m])
     (yoff - x * 6 + y * 6 + 128 * 12 + 16 * 12 div 2 - int k * 12) img =
   paint_all cave blocks bm xoff yoff (map (\<lambda>z. (x, y, z)) (map int [k..<k + m])) img"
proof (induction m arbitrary: k img)
  case 0
  show ?case by simp
next
  case (Suc m)
  have u: "[k..<k + Suc m] = k # [Suc k..<Suc k + m]"
    by (simp add: upt_conv_Cons)
  have a: "yoff - x * 6 + y * 6 + 128 * 12 + 16 * 12 div 2 - int k * 12 - 12 =
        yoff - x * 6 + y * 6 + 128 * 12 + 16 * 12 div 2 - int (Suc k) * 12"
    by simp
  show ?case
    unfolding u list.map z_loop.simps paint_all.simps a Suc.IH [of "Suc k"]
    by (simp add: projector_def)
qed

lemma z_loop_xrange:
  "z_loop cave blocks bm x y (xoff + x * 12 + y * 12) (xrange 128)
     (yoff - x * 6 + y * 6 + 128 * 12 + 16 * 12 div 2) img =
   paint_all cave blocks bm xoff yoff (map (\<lambda>z. (x, y, z)) (xrange 128)) img"
  using z_loop_closed [of cave blocks bm x y xoff 0 128 yoff img]
  by (simp add: xrange_def)

lemma y_loop_closed:
  "y_loop cave blocks bm xoff yoff x ys img =
   paint_all cave blocks bm xoff yoff
     (concat (map (\<lambda>y. map (\<lambda>z. (x, y, z)) (xrange 128)) ys)) img"
proof (induction ys arbitrary: img)
  case Nil
  show ?case by simp
next
  case (Cons y ys)
  show ?case
    by (simp only: y_loop.simps list.map concat.simps paint_all_append z_loop_xrange Cons.IH
        cong: sum.case_cong)
qed

lemma x_loop_closed:
  "x_loop cave blocks bm xoff yoff xs img =
   paint_all cave blocks bm xoff yoff
     (concat (map (\<lambda>x. concat (map (\<lambda>y. map (\<lambda>z. (x, y, z)) (xrange 128)) (xrange 16))) xs)) img"
proof (induction xs arbitrary: img)
  case Nil
  show ?case by simp
next
  case (Cons x xs)
  show ?case
    by (simp only: x_loop.simps list.map concat.simps paint_all_append y_loop_closed Cons.IH
        cong: sum.case_cong)
qed

lemma render_grid_closed:
  "render_grid cave blocks bm xoff yoff img = paint_all cave blocks bm xoff yoff traversal img"
  by (simp only: render_grid_def traversal_def x_loop_closed)

lemma paste_positions_lines_x:
  "snd (line_x blocks x y z imgx imgy :: 'i draw list reading) = Inr ls \<Longrightarrow> paste_positions ls = []"
  by (auto simp add: line_x_def then_do_def done_with_def read_block_def split: if_splits sum.splits)

lemma paste_positions_lines_y:
  "snd (line_y blocks x y z imgx imgy :: 'i draw list reading) = Inr ls \<Longrightarrow> paste_positions ls = []"
  by (auto simp add: line_y_def then_do_def done_with_def read_block_def split: if_splits sum.splits)

lemma paste_positions_append: "paste_positions (a @ b) = paste_positions a @ paste_positions b"
  by (induction a rule: paste_positions.induct) simp_all

lemma then_do_Inr:
  "snd (then_do m f) = Inr w \<longleftrightarrow> (\<exists>v. snd m = Inr v \<and> snd (f v) = Inr w)"
  by (cases m) (auto simp add: then_do_def split: sum.splits prod.splits)

lemma paste_positions_edge_lines:
  "snd (edge_lines blocks b x y z imgx imgy :: 'i draw list reading) = Inr ls \<Longrightarrow> paste_positions ls = []"
  by (auto simp add: edge_lines_def then_do_Inr snd_done_with paste_positions_append
      paste_positions_lines_x paste_positions_lines_y split: if_splits)

lemma render_block_pastes:
  "(case snd (render_block cave blocks bm x y z imgx imgy) of
      Inl e \<Rightarrow> [] | Inr ds \<Rightarrow> paste_positions ds) =
   (if drawn (render_block cave blocks bm x y z imgx imgy) then [(imgx, imgy)] else [])"
proof (cases "snd (render_block cave blocks bm x y z imgx imgy)")
  case (Inl e)
  then show ?thesis by (subst drawn_snd) simp
next
  case (Inr ds)
  then have "ds = [] \<or> (\<exists>src m ls. ds = Paste src (imgx, imgy) m # ls \<and> paste_positions ls = [])"
    by (auto simp add: render_block_def then_do_Inr snd_done_with paste_positions_edge_lines
        split: option.splits if_splits)
  then show ?thesis using Inr by (subst drawn_snd) auto
qed

text \<open>
  C3. The three loops, which carry \<open>imgy\<close> along and decrement it after every block
  whether it was drawn, skipped or left by an exception, paint each block \<open>(x, y, z)\<close> at
  \<open>imgx = xoff + x*12 + y*12\<close>, \<open>imgy = yoff - x*6 + y*6 + 128*12 + 16*12/2 - z*12\<close>; a
  block that is drawn pastes its sprite exactly there and nowhere else; and the positions
  for \<open>z\<close> and \<open>z + 1\<close> differ by 12 pixels vertically only.
\<close>

theorem projector_positions:
  "render_grid cave blocks blockmap xoff yoff img =
     paint_all cave blocks blockmap xoff yoff traversal img
   \<and> projector xoff yoff (x, y, z) =
       (xoff + x * 12 + y * 12, yoff - x * 6 + y * 6 + 128 * 12 + 16 * 12 div 2 - z * 12)
   \<and> (case snd (render_block cave blocks blockmap x y z imgx imgy) of
        Inl e \<Rightarrow> []
      | Inr ds \<Rightarrow> paste_positions ds) =
       (if drawn (render_block cave blocks blockmap x y z imgx imgy) then [(imgx, imgy)] else [])
   \<and> projector xoff yoff (x, y, z + 1) =
       (fst (projector xoff yoff (x, y, z)), snd (projector xoff yoff (x, y, z)) - 12)"
proof -
  have "projector xoff yoff (x, y, z + 1) =
       (fst (projector xoff yoff (x, y, z)), snd (projector xoff yoff (x, y, z)) - 12)"
    by (simp add: projector_def)
  moreover have "projector xoff yoff (x, y, z) =
       (xoff + x * 12 + y * 12, yoff - x * 6 + y * 6 + 128 * 12 + 16 * 12 div 2 - z * 12)"
    by (simp add: projector_def)
  ultimately show ?thesis
    using render_grid_closed [of cave blocks blockmap xoff yoff img]
      render_block_pastes [of cave blocks blockmap x y z imgx imgy]
    by blast
qed

subsection \<open>The cave light mask\<close>

lemma length_assign_stride2: "length (assign_stride2 s a v) = length a"
  by (simp add: assign_stride2_def)

lemma nth_assign_stride2:
  "i < length a \<Longrightarrow>
   assign_stride2 s a v ! i =
     (if (i mod 128) mod 2 = s then v ! ((i div 128) * 64 + (i mod 128) div 2) else a ! i)"
  by (simp add: assign_stride2_def)

lemma length_skylight_expand: "length (skylight_expand skylight) = 32768"
  by (simp add: skylight_expand_def length_assign_stride2)

lemma nth_skylight_expand:
  assumes i: "i < 32768" and l: "length skylight = 16384"
  shows "skylight_expand skylight ! i =
     (if (i mod 128) mod 2 = 0 then (skylight ! ((i div 128) * 64 + (i mod 128) div 2)) AND 0x0F
      else drop_bit 4 (skylight ! ((i div 128) * 64 + (i mod 128) div 2)))"
proof -
  have "i div 128 < 256" using i by simp
  then have "i div 128 * 64 \<le> 255 * 64" by simp
  moreover have "i mod 128 div 2 < 64" by simp
  ultimately have k: "(i div 128) * 64 + (i mod 128) div 2 < length skylight"
    unfolding l by simp
  have "(i mod 128) mod 2 \<noteq> 0 \<Longrightarrow> (i mod 128) mod 2 = 1"
    by simp
  then show ?thesis
    using i k
    by (simp add: skylight_expand_def nth_assign_stride2 length_assign_stride2 del: mod_mod_trivial)
qed

lemma nth_mask_assign:
  "i < length a \<Longrightarrow> i < length sel \<Longrightarrow>
   mask_assign a sel v ! i = (if sel ! i then v else a ! i)"
  by (simp add: mask_assign_def)

lemma length_mask_assign: "length (mask_assign a sel v) = min (length a) (length sel)"
  by (simp add: mask_assign_def)

lemma nth_cave_blocks:
  "i < 32768 \<Longrightarrow> length blocks = 32768 \<Longrightarrow>
   cave_blocks blocks skylight ! i =
     (if skylight_expand skylight ! i \<noteq> 0 then 21 else blocks ! i)"
  by (simp add: cave_blocks_def nth_mask_assign length_skylight_expand)

lemma flat_div_mod:
  assumes "in_grid (x, y, z)"
  shows "((nat x * 16 + nat y) * 128 + nat z) div 128 = nat x * 16 + nat y"
    and "((nat x * 16 + nat y) * 128 + nat z) mod 128 = nat z"
proof -
  have c: "nat z < 128" using assms unfolding in_grid_def by auto
  show "((nat x * 16 + nat y) * 128 + nat z) div 128 = nat x * 16 + nat y"
    using c by simp
  show "((nat x * 16 + nat y) * 128 + nat z) mod 128 = nat z"
    using c mod_mult_self3 [of "nat x * 16 + nat y" 128 "nat z"] by (simp only: mod_less)
qed

lemma getitem3_skylight_in:
  assumes "in_grid (x, y, z)"
  shows "getitem3 skylight_shape a (x, y, z div 2) =
     Inr (a ! ((nat x * 16 + nat y) * 64 + nat z div 2))"
proof -
  have x: "norm_index 16 x = Inr (nat x)" and y: "norm_index 16 y = Inr (nat y)"
    using assms by (simp_all add: in_grid_def norm_index_in)
  have "0 \<le> z" and "z < 128"
    using assms unfolding in_grid_def by simp_all
  then have "0 \<le> z div 2" and "z div 2 < 64"
    by simp_all
  then have z: "norm_index 64 (z div 2) = Inr (nat (z div 2))"
    by (rule norm_index_in)
  have n: "nat (z div 2) = nat z div 2"
    using assms by (simp add: in_grid_def nat_div_distrib)
  show ?thesis
    by (simp add: getitem3_def skylight_shape_def x y z n)
qed

lemma cave_blocks_cells:
  assumes b: "length blocks = 16 * 16 * 128" and s: "length skylight = 16 * 16 * 64"
    and g: "in_grid (x, y, z)"
  shows "\<exists>v c. skylight_nibble skylight (x, y, z) = Inr v
           \<and> getitem3 block_shape blocks (x, y, z) = Inr c
           \<and> getitem3 block_shape (cave_blocks blocks skylight) (x, y, z) =
               Inr (if v \<noteq> 0 then 21 else c)"
proof -
  let ?i = "(nat x * 16 + nat y) * 128 + nat z"
  let ?k = "(nat x * 16 + nat y) * 64 + nat z div 2"
  have i: "?i < 32768" by (rule flat_index_less [OF g])
  have "0 \<le> z" using g by (simp add: in_grid_def)
  then have z: "(z mod 2 = 0) = (nat z mod 2 = 0)"
    by (metis even_nat_iff even_iff_mod_2_eq_zero)
  have e: "skylight_expand skylight ! ?i =
      (if z mod 2 = 0 then (skylight ! ?k) AND 0x0F else drop_bit 4 (skylight ! ?k))"
  proof -
    have l: "length skylight = 16384" using s by simp
    show ?thesis by (simp only: nth_skylight_expand [OF i l] flat_div_mod [OF g] z)
  qed
  have n: "skylight_nibble skylight (x, y, z) =
      Inr (if z mod 2 = 0 then (skylight ! ?k) AND 0x0F else drop_bit 4 (skylight ! ?k))"
    by (simp add: skylight_nibble_def getitem3_skylight_in [OF g])
  have c: "getitem3 block_shape (cave_blocks blocks skylight) (x, y, z) =
      Inr (if skylight_expand skylight ! ?i \<noteq> 0 then 21 else blocks ! ?i)"
  proof -
    have l: "length blocks = 32768" using b by simp
    show ?thesis by (simp only: getitem3_block_in [OF g] nth_cave_blocks [OF i l])
  qed
  show ?thesis
    using n c e getitem3_block_in [OF g, of blocks] by simp
qed


subsection \<open>The renderer's arrays\<close>

lemma load_level_cases:
  fixes s :: renderer
  obtains (cached) lv where "level_attr s = Some lv" "load_level d s = (s, Inr lv)"
  | (loaded) lv where "level_attr s = None" "get_lvldata d (chunkfile s) = Inr lv"
      "load_level d s = (s\<lparr>level_attr := Some lv\<rparr>, Inr lv)"
  | (failed) e where "level_attr s = None" "get_lvldata d (chunkfile s) = Inl e"
      "load_level d s = (s, Inl e)"
  by (cases "level_attr s"; cases "get_lvldata d (chunkfile s)") (auto simp add: load_level_def)

lemma load_level_again:
  fixes s :: renderer
  shows "load_level d s = (s1, Inr lv) \<Longrightarrow> load_level d s1 = (s1, Inr lv)"
  by (rule load_level_cases [of s d]) (auto simp add: load_level_def)

lemma load_level_sets:
  fixes s :: renderer
  shows "load_level d s = (s1, Inr lv) \<Longrightarrow> level_attr s1 = Some lv"
  by (rule load_level_cases [of s d]) auto

lemma load_level_frame:
  fixes s :: renderer
  shows "load_level d s = (s1, r) \<Longrightarrow>
   arrays s1 = arrays s \<and> blocks_attr s1 = blocks_attr s \<and> chunkfile s1 = chunkfile s"
  by (rule load_level_cases [of s d]) auto

lemma load_level_failed:
  fixes s :: renderer
  shows "load_level d s = (s1, Inl e) \<Longrightarrow> s1 = s"
  by (rule load_level_cases [of s d]) auto


lemma load_blocks_cached:
  fixes s :: renderer
  shows "blocks_attr s = Some a \<Longrightarrow> load_blocks d s = (s, Inr a)"
  by (simp add: load_blocks_def)

lemma current_blocks_cached:
  fixes s :: renderer
  shows "blocks_attr s = Some a \<Longrightarrow> current_blocks d s = Inr (arrays s ! a)"
  by (simp add: current_blocks_def load_blocks_def)

lemma current_blocks_fresh:
  fixes s :: renderer
  assumes "blocks_attr s = None"
  shows "current_blocks d s =
     (case snd (load_level d s) of Inl e \<Rightarrow> Inl e | Inr lv \<Rightarrow> get_blockarray lv)"
  by (rule load_level_cases [of s d])
    (use assms in \<open>auto simp add: current_blocks_def load_blocks_def split: sum.splits\<close>)

lemma cave_step_keeps:
  fixes s :: renderer
  assumes a: "a < length (arrays s)"
  shows "((arrays s @ [arrays s ! a])[length (arrays s) := m]) ! a = arrays s ! a"
  using a by (simp add: nth_append)

lemma chunk_render_cave_cached:
  fixes s :: renderer
  assumes b: "blocks_attr s = Some a" and a: "a < length (arrays s)"
  shows "blocks_attr (fst (chunk_render bm d s img xoff yoff True)) = Some a
       \<and> arrays (fst (chunk_render bm d s img xoff yoff True)) ! a = arrays s ! a"
proof (rule load_level_cases [of s d])
  fix lv assume "level_attr s = Some lv" and l: "load_level d s = (s, Inr lv)"
  show ?thesis
    using a b
    by (cases "get_skylight_array lv")
      (simp_all add: chunk_render_def load_blocks_cached [OF b] l Let_def nth_append)
next
  fix lv assume "level_attr s = None" "get_lvldata d (chunkfile s) = Inr lv"
    and l: "load_level d s = (s\<lparr>level_attr := Some lv\<rparr>, Inr lv)"
  show ?thesis
    using a b
    by (cases "get_skylight_array lv")
      (simp_all add: chunk_render_def load_blocks_cached [OF b] l Let_def nth_append)
next
  fix e assume "level_attr s = None" "get_lvldata d (chunkfile s) = Inl e"
    and l: "load_level d s = (s, Inl e)"
  show ?thesis
    using a b by (simp add: chunk_render_def load_blocks_cached [OF b] l)
qed


lemma chunk_render_cave_fresh:
  fixes s :: renderer
  assumes b: "blocks_attr s = None"
  shows "current_blocks d (fst (chunk_render bm d s img xoff yoff True)) = current_blocks d s"
proof (rule load_level_cases [of s d])
  fix e assume "level_attr s = None" "get_lvldata d (chunkfile s) = Inl e"
    and l: "load_level d s = (s, Inl e)"
  show ?thesis
    by (simp add: chunk_render_def load_blocks_def b l)
next
  fix lv assume c: "level_attr s = Some lv" and l: "load_level d s = (s, Inr lv)"
  show ?thesis
  proof (cases "get_blockarray lv")
    case (Inl e)
    then show ?thesis by (simp add: chunk_render_def load_blocks_def b l)
  next
    case (Inr arr)
    let ?s1 = "s\<lparr>arrays := arrays s @ [arr], blocks_attr := Some (length (arrays s))\<rparr>"
    have 1: "load_blocks d s = (?s1, Inr (length (arrays s)))"
      by (simp add: load_blocks_def b l Inr)
    have 2: "load_level d ?s1 = (?s1, Inr lv)"
      by (simp add: load_level_def c)
    have 3: "current_blocks d s = Inr arr"
      by (simp add: current_blocks_def 1)
    show ?thesis
      by (cases "get_skylight_array lv")
        (simp_all add: chunk_render_def 1 2 3 Let_def current_blocks_cached nth_append)
  qed
next
  fix lv assume c: "level_attr s = None" and "get_lvldata d (chunkfile s) = Inr lv"
    and l: "load_level d s = (s\<lparr>level_attr := Some lv\<rparr>, Inr lv)"
  let ?s0 = "s\<lparr>level_attr := Some lv\<rparr>"
  show ?thesis
  proof (cases "get_blockarray lv")
    case (Inl e)
    have "load_level d ?s0 = (?s0, Inr lv)" by (simp add: load_level_def)
    then have "current_blocks d ?s0 = Inl e"
      by (simp add: current_blocks_def load_blocks_def b Inl)
    moreover have "current_blocks d s = Inl e"
      by (simp add: current_blocks_def load_blocks_def b l Inl)
    ultimately show ?thesis by (simp add: chunk_render_def load_blocks_def b l Inl)
  next
    case (Inr arr)
    let ?s1 = "?s0\<lparr>arrays := arrays s @ [arr], blocks_attr := Some (length (arrays s))\<rparr>"
    have 1: "load_blocks d s = (?s1, Inr (length (arrays s)))"
      by (simp add: load_blocks_def b l Inr)
    have 2: "load_level d ?s1 = (?s1, Inr lv)"
      by (simp add: load_level_def)
    have 3: "current_blocks d s = Inr arr"
      by (simp add: current_blocks_def 1)
    show ?thesis
      by (cases "get_skylight_array lv")
        (simp_all add: chunk_render_def 1 2 3 Let_def current_blocks_cached nth_append)
  qed
qed

lemma cave_blocks_mask:
  "mask_assign a (map (\<lambda>v. v \<noteq> 0) (skylight_expand skylight)) 21 = cave_blocks a skylight"
  by (simp add: cave_blocks_def)

lemma chunk_render_cave_result:
  fixes s :: renderer
  assumes w: "wf_renderer s"
    and c: "current_blocks d s = Inr blocks"
    and l: "snd (load_level d s) = Inr lv"
    and k: "get_skylight_array lv = Inr skylight"
  shows "snd (chunk_render bm d s img xoff yoff True) =
     render_grid True (cave_blocks blocks skylight) bm xoff yoff
       (case img of None \<Rightarrow> [] | Some i \<Rightarrow> i)"
proof -
  obtain s0 where l0: "load_level d s = (s0, Inr lv)"
    using l by (cases "load_level d s") simp
  note f = load_level_frame [OF l0] and g = load_level_again [OF l0]
  show ?thesis
  proof (cases "blocks_attr s")
    case (Some a)
    with w have a: "a < length (arrays s)" by (simp add: wf_renderer_def)
    have b: "blocks = arrays s ! a"
      using c by (simp add: current_blocks_cached Some)
    show ?thesis
      using a
      by (simp add: chunk_render_def load_blocks_cached [OF Some] l0 k Let_def f nth_append
          cave_blocks_mask b)
  next
    case None
    have gb: "get_blockarray lv = Inr blocks"
      using c by (simp add: current_blocks_fresh [OF None] l)
    let ?s1 = "s0\<lparr>arrays := arrays s0 @ [blocks], blocks_attr := Some (length (arrays s0))\<rparr>"
    have 1: "load_blocks d s = (?s1, Inr (length (arrays s0)))"
      by (simp add: load_blocks_def None l0 gb)
    have "level_attr s0 = Some lv"
      by (rule load_level_sets [OF l0])
    then have 2: "load_level d ?s1 = (?s1, Inr lv)"
      by (simp add: load_level_def)
    show ?thesis
      by (simp add: chunk_render_def 1 2 k Let_def nth_append cave_blocks_mask)
  qed
qed

lemma chunk_render_cave_grid:
  fixes s :: renderer
  assumes w: "wf_renderer s"
    and c: "current_blocks d s = Inr blocks"
    and l: "snd (load_level d s) = Inr lv"
    and k: "get_skylight_array lv = Inr skylight"
  shows "last (arrays (fst (chunk_render bm d s img xoff yoff True))) = cave_blocks blocks skylight"
proof -
  obtain s0 where l0: "load_level d s = (s0, Inr lv)"
    using l by (cases "load_level d s") simp
  note f = load_level_frame [OF l0]
  have u: "last ((xs @ [v])[length xs := m]) = m" for xs :: "byte list list" and v m
    by (simp add: last_conv_nth)
  show ?thesis
  proof (cases "blocks_attr s")
    case (Some a)
    with w have a: "a < length (arrays s)" by (simp add: wf_renderer_def)
    have b: "blocks = arrays s ! a"
      using c by (simp add: current_blocks_cached Some)
    show ?thesis
      using a
      by (simp add: chunk_render_def load_blocks_cached [OF Some] l0 k Let_def f nth_append
          cave_blocks_mask b u)
  next
    case None
    have gb: "get_blockarray lv = Inr blocks"
      using c by (simp add: current_blocks_fresh [OF None] l)
    let ?s1 = "s0\<lparr>arrays := arrays s0 @ [blocks], blocks_attr := Some (length (arrays s0))\<rparr>"
    have 1: "load_blocks d s = (?s1, Inr (length (arrays s0)))"
      by (simp add: load_blocks_def None l0 gb)
    have "level_attr s0 = Some lv"
      by (rule load_level_sets [OF l0])
    then have 2: "load_level d ?s1 = (?s1, Inr lv)"
      by (simp add: load_level_def)
    have u2: "last ((xs @ [v, v'])[Suc (length xs) := m]) = m" for xs :: "byte list list" and v v' m
      using u [of "xs @ [v]" v' m] by simp
    show ?thesis
      by (simp add: chunk_render_def 1 2 k Let_def nth_append cave_blocks_mask u2)
  qed
qed

lemma chunk_render_frame:
  fixes s :: renderer
  shows "take (length (arrays s)) (arrays (fst (chunk_render bm d s img xoff yoff cave))) = arrays s"
proof -
  obtain s1 r where 1: "load_blocks d s = (s1, r)" by (cases "load_blocks d s")
  have p: "take (length (arrays s)) (arrays s1) = arrays s"
    using 1
    by (rule_tac load_level_cases [of s d])
      (auto simp add: load_blocks_def split: option.splits sum.splits)
  have q: "length (arrays s) \<le> length (arrays s1)"
    using 1
    by (rule_tac load_level_cases [of s d])
      (auto simp add: load_blocks_def split: option.splits sum.splits)
  show ?thesis
  proof (cases r)
    case (Inl e)
    then show ?thesis by (simp add: chunk_render_def 1 p)
  next
    case (Inr a)
    obtain s2 r2 where 2: "load_level d s1 = (s2, r2)" by (cases "load_level d s1")
    note f = load_level_frame [OF 2]
    show ?thesis
      using p q
      by (cases r2; cases "get_skylight_array (projr r2)")
        (simp_all add: chunk_render_def 1 Inr 2 f Let_def)
  qed
qed

text \<open>
  C7. A render in cave mode leaves the block array of the renderer as it was: the value of
  \<open>self.blocks\<close> after \<open>chunk_render(cave=True)\<close>, however it ends, is its value before;
  no array that existed before the call is written to; and what is rendered is the masked
  copy.
\<close>

theorem cave_render_keeps_blocks:
  assumes w: "wf_renderer s"
  shows "current_blocks d (fst (chunk_render blockmap d s img xoff yoff True)) = current_blocks d s
       \<and> take (length (arrays s)) (arrays (fst (chunk_render blockmap d s img xoff yoff True))) =
           arrays s
       \<and> (current_blocks d s = Inr blocks \<and> snd (load_level d s) = Inr lv
            \<and> get_skylight_array lv = Inr skylight \<longrightarrow>
          snd (chunk_render blockmap d s img xoff yoff True) =
            render_grid True (cave_blocks blocks skylight) blockmap xoff yoff
              (case img of None \<Rightarrow> [] | Some i \<Rightarrow> i))"
proof -
  have "current_blocks d (fst (chunk_render blockmap d s img xoff yoff True)) = current_blocks d s"
  proof (cases "blocks_attr s")
    case None
    then show ?thesis by (rule chunk_render_cave_fresh)
  next
    case (Some a)
    with w have a: "a < length (arrays s)" by (simp add: wf_renderer_def)
    from chunk_render_cave_cached [OF Some a, of blockmap d img xoff yoff]
    show ?thesis by (simp add: current_blocks_cached Some)
  qed
  then show ?thesis
    using chunk_render_frame [of s blockmap d img xoff yoff True]
      chunk_render_cave_result [OF w, of d blocks lv skylight blockmap img xoff yoff]
    by blast
qed

theorem cave_render_keeps_blocks_witness:
  "wf_renderer
     \<lparr>chunkfile = ''c.0.0.dat'',
      level_attr = Some \<lparr>Blocks = replicate (16 * 16 * 128) 1, SkyLight = replicate (16 * 16 * 64) 255\<rparr>,
      blocks_attr = Some 0, arrays = [replicate (16 * 16 * 128) 1]\<rparr>
   \<and> current_blocks ([] :: nat dir)
       (fst (chunk_render (\<lambda>b. None) ([] :: nat dir)
          \<lparr>chunkfile = ''c.0.0.dat'',
           level_attr = Some \<lparr>Blocks = replicate (16 * 16 * 128) 1,
                               SkyLight = replicate (16 * 16 * 64) 255\<rparr>,
           blocks_attr = Some 0, arrays = [replicate (16 * 16 * 128) 1]\<rparr> None 0 0 True)) =
       Inr (replicate (16 * 16 * 128) 1)
   \<and> snd (chunk_render (\<lambda>b. None) ([] :: nat dir)
          \<lparr>chunkfile = ''c.0.0.dat'',
           level_attr = Some \<lparr>Blocks = replicate (16 * 16 * 128) 1,
                               SkyLight = replicate (16 * 16 * 64) 255\<rparr>,
           blocks_attr = Some 0, arrays = [replicate (16 * 16 * 128) 1]\<rparr> None 0 0 True) =
       render_grid True
         (cave_blocks (replicate (16 * 16 * 128) 1) (replicate (16 * 16 * 64) 255))
         (\<lambda>b. None) 0 0 []"
proof -
  let ?lv = "\<lparr>Blocks = replicate (16 * 16 * 128) (1 :: byte),
             SkyLight = replicate (16 * 16 * 64) (255 :: byte)\<rparr>"
  let ?s = "\<lparr>chunkfile = ''c.0.0.dat'', level_attr = Some ?lv, blocks_attr = Some 0,
            arrays = [replicate (16 * 16 * 128) (1 :: byte)]\<rparr>"
  have w: "wf_renderer ?s"
    by (simp add: wf_renderer_def)
  have c: "current_blocks ([] :: nat dir) ?s = Inr (replicate (16 * 16 * 128) 1)"
    by (simp add: current_blocks_def load_blocks_def)
  have l: "snd (load_level ([] :: nat dir) ?s) = Inr ?lv"
    by (simp add: load_level_def)
  have k: "get_skylight_array ?lv = Inr (replicate (16 * 16 * 64) 255)"
    by (simp add: get_skylight_array_def reshape_def)
  note t = cave_render_keeps_blocks [OF w, of "[] :: nat dir" "\<lambda>b. None" None 0 0
      "replicate (16 * 16 * 128) 1" ?lv "replicate (16 * 16 * 64) 255"]
  from t [THEN conjunct1] c t [THEN conjunct2, THEN conjunct2, rule_format, OF conjI, OF c conjI,
      OF l k] w
  show ?thesis by simp
qed

subsection \<open>The grid rendered in cave mode\<close>

text \<open>
  C4. In cave mode the grid that \<open>chunk_render\<close> renders is the array it allocated last,
  the masked copy; for every position of the grid, that array holds 21 at the position if
  and only if the expanded skylight value there (the low four bits of packed byte
  \<open>z div 2\<close> for even \<open>z\<close>, the high four bits for odd \<open>z\<close>) is not zero, and the
  original block type otherwise.
\<close>

theorem cave_mask_cells:
  assumes w: "wf_renderer s"
    and c: "current_blocks d s = Inr blocks" and b: "length blocks = 16 * 16 * 128"
    and l: "snd (load_level d s) = Inr lv"
    and k: "get_skylight_array lv = Inr skylight"
    and g: "in_grid (x, y, z)"
  shows "snd (chunk_render blockmap d s img xoff yoff True) =
           render_grid True (last (arrays (fst (chunk_render blockmap d s img xoff yoff True))))
             blockmap xoff yoff (case img of None \<Rightarrow> [] | Some i \<Rightarrow> i)
       \<and> (\<exists>v c. skylight_nibble skylight (x, y, z) = Inr v
             \<and> getitem3 block_shape blocks (x, y, z) = Inr c
             \<and> getitem3 block_shape
                 (last (arrays (fst (chunk_render blockmap d s img xoff yoff True)))) (x, y, z) =
                 Inr (if v \<noteq> 0 then 21 else c))"
proof -
  have n: "length skylight = 16 * 16 * 64"
    using k by (simp add: get_skylight_array_def reshape_def split: if_splits)
  show ?thesis
    unfolding chunk_render_cave_grid [OF w c l k]
    using chunk_render_cave_result [OF w c l k, of blockmap img xoff yoff]
      cave_blocks_cells [OF b n g]
    by simp
qed

theorem cave_mask_cells_witness:
  "wf_renderer
     \<lparr>chunkfile = ''c.0.0.dat'',
      level_attr = Some \<lparr>Blocks = replicate (16 * 16 * 128) 1, SkyLight = replicate (16 * 16 * 64) 0xF0\<rparr>,
      blocks_attr = Some 0, arrays = [replicate (16 * 16 * 128) 1]\<rparr>
   \<and> in_grid (1, 2, 3) \<and> in_grid (1, 2, 4)
   \<and> getitem3 block_shape
       (last (arrays (fst (chunk_render (\<lambda>b. None) ([] :: nat dir)
          \<lparr>chunkfile = ''c.0.0.dat'',
           level_attr = Some \<lparr>Blocks = replicate (16 * 16 * 128) 1,
                               SkyLight = replicate (16 * 16 * 64) 0xF0\<rparr>,
           blocks_attr = Some 0, arrays = [replicate (16 * 16 * 128) 1]\<rparr> None 0 0 True))))
       (1, 2, 3) = Inr 21
   \<and> getitem3 block_shape
       (last (arrays (fst (chunk_render (\<lambda>b. None) ([] :: nat dir)
          \<lparr>chunkfile = ''c.0.0.dat'',
           level_attr = Some \<lparr>Blocks = replicate (16 * 16 * 128) 1,
                               SkyLight = replicate (16 * 16 * 64) 0xF0\<rparr>,
           blocks_attr = Some 0, arrays = [replicate (16 * 16 * 128) 1]\<rparr> None 0 0 True))))
       (1, 2, 4) = Inr 1"
proof -
  let ?lv = "\<lparr>Blocks = replicate (16 * 16 * 128) (1 :: byte),
             SkyLight = replicate (16 * 16 * 64) (0xF0 :: byte)\<rparr>"
  let ?s = "\<lparr>chunkfile = ''c.0.0.dat'', level_attr = Some ?lv, blocks_attr = Some 0,
            arrays = [replicate (16 * 16 * 128) (1 :: byte)]\<rparr>"
  have w: "wf_renderer ?s"
    by (simp add: wf_renderer_def)
  have c: "current_blocks ([] :: nat dir) ?s = Inr (replicate (16 * 16 * 128) 1)"
    by (simp add: current_blocks_def load_blocks_def)
  have b: "length (replicate (16 * 16 * 128) (1 :: byte)) = 16 * 16 * 128"
    by simp
  have l: "snd (load_level ([] :: nat dir) ?s) = Inr ?lv"
    by (simp add: load_level_def)
  have k: "get_skylight_array ?lv = Inr (replicate (16 * 16 * 64) 0xF0)"
    by (simp add: get_skylight_array_def reshape_def)
  have g: "in_grid (1, 2, 3)" and g': "in_grid (1, 2, 4)"
    by (simp_all add: in_grid_def)
  have n: "skylight_nibble (replicate (16 * 16 * 64) 0xF0) (1, 2, 3) = Inr 15"
    and n': "skylight_nibble (replicate (16 * 16 * 64) 0xF0) (1, 2, 4) = Inr 0"
    by (simp_all add: skylight_nibble_def getitem3_def skylight_shape_def norm_index_def)
  have e: "getitem3 block_shape (replicate (16 * 16 * 128) 1) (1, 2, 3) = Inr 1"
    and e': "getitem3 block_shape (replicate (16 * 16 * 128) 1) (1, 2, 4) = Inr 1"
    by (simp_all add: getitem3_def block_shape_def norm_index_def)
  note t = cave_mask_cells [OF w c b l k, where blockmap = "\<lambda>b. None" and img = None
      and xoff = 0 and yoff = 0, THEN conjunct2]
  from t [OF g] t [OF g'] w g g'
  show ?thesis unfolding n n' e e' by simp
qed

subsection \<open>The directory: unlink and save\<close>

lemma map_of_filter_neq:
  "map_of (filter (\<lambda>(n, f). n \<noteq> name) d) m = (if m = name then None else map_of d m)"
  by (induction d) auto

lemma map_of_unlink:
  "map_of (files (unlink name w)) m = (if m = name then None else map_of (files w) m)"
  by (simp add: unlink_def map_of_filter_neq)

lemma map_of_replace:
  "map_of (map (\<lambda>(n, f). if n = name then (n, c) else (n, f)) d) m =
     (if m = name \<and> map_of d name \<noteq> None then Some c else map_of d m)"
  by (induction d) auto

lemma map_of_append_new:
  "map_of d name = None \<Longrightarrow>
   map_of (d @ [(name, c)]) m = (if m = name then Some c else map_of d m)"
  by (induction d) auto

lemma map_of_save:
  "map_of (files (save name img w)) m =
     (if m = name then Some (ImageFile img) else map_of (files w) m)"
proof (cases "exists (files w) name")
  case True
  then show ?thesis by (simp add: save_def map_of_replace exists_def)
next
  case False
  then have "map_of (files w) name = None" by (simp add: exists_def)
  then show ?thesis using False by (simp add: save_def map_of_append_new del: map_of_append)
qed

lemma names_unlink:
  "map fst (files (unlink name w)) = filter (\<lambda>n. n \<noteq> name) (map fst (files w))"
  by (simp add: unlink_def filter_map comp_def case_prod_unfold)

lemma names_replace:
  "map fst (map (\<lambda>(n, f). if n = name then (n, c) else (n, f)) d) = map fst d"
  by (induction d) auto

lemma names_save:
  "map fst (files (save name img w)) =
     (if exists (files w) name then map fst (files w) else map fst (files w) @ [name])"
  by (simp add: save_def names_replace del: map_map)

lemma events_unlink: "events (unlink name w) = events w @ [Unlinked name]"
  by (simp add: unlink_def)

lemma events_save: "events (save name img w) = events w @ [Saved name]"
  by (simp add: save_def)

lemma remove_old_find:
  "remove_old blockid cave names w =
     (case find (is_old_image blockid cave) names of None \<Rightarrow> w | Some n \<Rightarrow> unlink n w)"
  by (induction names) auto

lemma find_old_image:
  "find (is_old_image blockid cave) names = Some n \<Longrightarrow>
   is_old_image blockid cave n \<and> n \<in> set names"
  by (induction names) (auto split: if_splits)

lemma endswith_append: "endswith (a @ p) p"
  by (simp add: endswith_def)

lemma dest_is_png: "endswith (dest_filename md5_hex name cave lv) ''.png''"
proof -
  have "dest_filename md5_hex name cave lv =
      (''img.'' @ chunk_blockid name @ ''.'' @ mode_name cave @ ''.'' @ hash_blockarray md5_hex lv)
        @ ''.png''"
    by (simp add: dest_filename_def)
  then show ?thesis by (simp only: endswith_append)
qed

lemma startswith_append: "startswith (p @ a) p"
  by (simp add: startswith_def)

lemma dest_is_old_image:
  "is_old_image (chunk_blockid name) cave (dest_filename md5_hex name cave lv)"
proof -
  have "dest_filename md5_hex name cave lv =
      cache_prefix (chunk_blockid name) cave @ (hash_blockarray md5_hex lv @ ''.png'')"
    by (simp add: dest_filename_def cache_prefix_def)
  then have "startswith (dest_filename md5_hex name cave lv) (cache_prefix (chunk_blockid name) cave)"
    by (simp only: startswith_append)
  then show ?thesis by (simp add: is_old_image_def dest_is_png)
qed


subsection \<open>The outcomes of render-and-save\<close>

lemma render_to_cases:
  obtains (failed) s' e where
      "render_to bm dest cave s w = (s', w\<lparr>events := events w @ [Rendered]\<rparr>, Inl e)"
  | (saved) s' img where
      "render_to bm dest cave s w =
         (s', save dest img (w\<lparr>events := events w @ [Rendered]\<rparr>), Inr dest)"
proof (cases "chunk_render bm (files w) s None 0 0 cave")
  case (Pair s' r)
  show ?thesis
  proof (cases r)
    case (Inl e)
    with Pair have "render_to bm dest cave s w = (s', w\<lparr>events := events w @ [Rendered]\<rparr>, Inl e)"
      by (simp add: render_to_def)
    then show ?thesis by (rule failed)
  next
    case (Inr img)
    with Pair have "render_to bm dest cave s w =
         (s', save dest img (w\<lparr>events := events w @ [Rendered]\<rparr>), Inr dest)"
      by (simp add: render_to_def)
    then show ?thesis by (rule saved)
  qed
qed

lemma get_lvldata_exists: "get_lvldata d name = Inr lv \<Longrightarrow> exists d name"
  by (auto simp add: get_lvldata_def exists_def split: option.splits)

lemma render_and_save_missing:
  "\<not> exists (files w) name \<Longrightarrow> render_and_save md5_hex bm name cave w = (w, Inl ValueError)"
  by (simp add: render_and_save_def new_renderer_def)

lemma render_and_save_unreadable:
  "exists (files w) name \<Longrightarrow> get_lvldata (files w) name = Inl e \<Longrightarrow>
   render_and_save md5_hex bm name cave w = (w, Inl e)"
  by (simp add: render_and_save_def new_renderer_def renderer_render_and_save_def load_level_def)

lemma render_and_save_hit:
  assumes "get_lvldata (files w) name = Inr lv"
    and "map_of (files w) (dest_filename md5_hex name cave lv) = Some (ImageFile img)"
  shows "render_and_save md5_hex bm name cave w = (w, Inr (dest_filename md5_hex name cave lv))"
  using assms get_lvldata_exists [OF assms(1)]
  by (simp add: render_and_save_def new_renderer_def renderer_render_and_save_def load_level_def
      exists_def Let_def)

lemma render_and_save_miss:
  assumes l: "get_lvldata (files w) name = Inr lv"
    and m: "\<not> cached md5_hex name cave w"
  shows "render_and_save md5_hex bm name cave w =
     snd (render_to bm (dest_filename md5_hex name cave lv) cave
            \<lparr>chunkfile = name, level_attr = Some lv, blocks_attr = None, arrays = []\<rparr>
            (if exists (files w) (dest_filename md5_hex name cave lv) then w
             else remove_old (chunk_blockid name) cave (map fst (files w)) w))"
proof -
  have n: "\<And>img. map_of (files w) (dest_filename md5_hex name cave lv) \<noteq> Some (ImageFile img)"
    using m by (auto simp add: cached_def l)
  show ?thesis
    using get_lvldata_exists [OF l] n
    by (simp add: render_and_save_def new_renderer_def renderer_render_and_save_def load_level_def
        l Let_def split: option.splits content.splits)
qed


lemma get_lvldata_cong:
  "map_of d' name = map_of d name \<Longrightarrow> get_lvldata d' name = get_lvldata d name"
  by (simp add: get_lvldata_def)

lemma renders_append: "renders (a @ b) = renders a + renders b"
  by (simp add: renders_def)

lemma saves_append: "saves (a @ b) = saves a + saves b"
  by (simp add: saves_def)

lemma remove_old_keeps:
  assumes "\<not> endswith name ''.png''"
  shows "map_of (files (remove_old blockid cave names w)) name = map_of (files w) name"
proof (cases "find (is_old_image blockid cave) names")
  case None
  then show ?thesis by (simp add: remove_old_find)
next
  case (Some n)
  from find_old_image [OF Some] have "endswith n ''.png''"
    by (simp add: is_old_image_def)
  with assms have "name \<noteq> n" by auto
  then show ?thesis by (simp add: remove_old_find Some map_of_unlink)
qed

lemma remove_old_events:
  "renders (events (remove_old blockid cave names w)) = renders (events w)
   \<and> saves (events (remove_old blockid cave names w)) = saves (events w)"
  by (cases "find (is_old_image blockid cave) names")
    (simp_all add: remove_old_find events_unlink renders_def saves_def)

lemma take1_filter_find:
  "map Unlinked (take 1 (filter P xs)) = (case find P xs of None \<Rightarrow> [] | Some n \<Rightarrow> [Unlinked n])"
  by (induction xs) auto

lemma find_None_count: "find P xs = None \<Longrightarrow> filter P xs = []"
  by (induction xs) (auto split: if_splits)

lemma count_after_unlink:
  assumes "n \<in> set xs" and "P n"
  shows "length (filter P (filter (\<lambda>m. m \<noteq> n) xs)) < length (filter P xs)"
proof -
  have "filter P (filter (\<lambda>m. m \<noteq> n) xs) = filter (\<lambda>m. m \<noteq> n) (filter P xs)"
    by (induction xs) auto
  moreover have "n \<in> set (filter P xs)" using assms by simp
  then have "length (filter (\<lambda>m. m \<noteq> n) (filter P xs)) < length (filter P xs)"
    by (rule length_filter_less) simp
  ultimately show ?thesis by simp
qed

lemma exists_names: "exists d name = (name \<in> set (map fst d))"
  by (simp add: exists_def map_of_eq_None_iff)

lemma cleanup_events:
  "events (remove_old blockid cave (map fst (files w)) w) =
     events w @ map Unlinked (take 1 (filter (is_old_image blockid cave) (map fst (files w))))"
  unfolding take1_filter_find remove_old_find
  by (cases "find (is_old_image blockid cave) (map fst (files w))")
    (simp_all add: events_unlink)

lemma cleanup_miss:
  fixes w :: "'i world"
  assumes nd: "\<not> exists (files w) dest" and od: "is_old_image blockid cave dest"
  defines "w0 \<equiv> remove_old blockid cave (map fst (files w)) w"
  shows "\<not> exists (files w0) dest"
    and "cache_count blockid cave (files w) \<le> 1 \<Longrightarrow> cache_count blockid cave (files w0) = 0"
proof -
  show "\<not> exists (files w0) dest"
    using nd unfolding w0_def remove_old_find
    by (cases "find (is_old_image blockid cave) (map fst (files w))")
      (simp_all add: exists_def map_of_unlink)
  show "cache_count blockid cave (files w0) = 0" if le: "cache_count blockid cave (files w) \<le> 1"
  proof (cases "find (is_old_image blockid cave) (map fst (files w))")
    case None
    then show ?thesis
      unfolding w0_def remove_old_find by (simp add: cache_count_def find_None_count)
  next
    case (Some n)
    from find_old_image [OF Some] have "is_old_image blockid cave n" "n \<in> set (map fst (files w))"
      by simp_all
    from count_after_unlink [OF this(2), of "is_old_image blockid cave", OF this(1)] le
    have "length (filter (is_old_image blockid cave)
            (filter (\<lambda>m. m \<noteq> n) (map fst (files w)))) = 0"
      unfolding cache_count_def by linarith
    then show ?thesis
      unfolding w0_def remove_old_find cache_count_def by (simp only: Some option.case names_unlink)
  qed
qed


lemma cache_count_save:
  "cache_count blockid cave (files (save dest img w)) =
     (if exists (files w) dest then cache_count blockid cave (files w)
      else cache_count blockid cave (files w) + (if is_old_image blockid cave dest then 1 else 0))"
  by (simp add: cache_count_def names_save del: map_map)

subsection \<open>Calls on example directories\<close>

lemma render_block_no_sprite:
  assumes "in_grid (x, y, z)"
  shows "snd (render_block cave blocks (\<lambda>b. None) x y z imgx imgy) = Inr []"
  by (simp add: render_block_def read_block_def getitem3_block_in [OF assms] then_do_def
      done_with_def)

lemma traversal_in_grid: "list_all in_grid traversal"
  by (auto simp add: list_all_iff traversal_def xrange_def in_grid_def)

lemma paint_all_no_sprites:
  "list_all in_grid l \<Longrightarrow> paint_all cave blocks (\<lambda>b. None) xoff yoff l img = Inr img"
proof (induction l)
  case Nil
  show ?case by simp
next
  case (Cons idx l)
  obtain x y z where i: "idx = (x, y, z)" by (cases idx)
  from Cons.prems have g: "in_grid (x, y, z)" and r: "list_all in_grid l"
    by (simp_all add: i)
  show ?case
    by (simp add: i render_block_no_sprite [OF g] Cons.IH [OF r] split: prod.splits)
qed

lemma render_grid_no_sprites:
  "render_grid cave blocks (\<lambda>b. None) xoff yoff img = Inr img"
  unfolding render_grid_closed by (rule paint_all_no_sprites [OF traversal_in_grid])

lemma chunk_render_no_sprites:
  assumes b: "length (Blocks lv) = 16 * 16 * 128" and k: "length (SkyLight lv) = 16 * 16 * 64"
  shows "snd (chunk_render (\<lambda>b. None) d
           \<lparr>chunkfile = name, level_attr = Some lv, blocks_attr = None, arrays = []\<rparr>
           None 0 0 cave) = Inr []"
  using b k
  by (simp add: chunk_render_def load_blocks_def load_level_def get_blockarray_def
      get_skylight_array_def reshape_def Let_def render_grid_no_sprites)

lemma render_to_no_sprites:
  assumes b: "length (Blocks lv) = 16 * 16 * 128" and k: "length (SkyLight lv) = 16 * 16 * 64"
  shows "snd (render_to (\<lambda>b. None) dest cave
           \<lparr>chunkfile = name, level_attr = Some lv, blocks_attr = None, arrays = []\<rparr> w) =
         (save dest [] (w\<lparr>events := events w @ [Rendered]\<rparr>), Inr dest)"
proof -
  obtain s' r where c: "chunk_render (\<lambda>b. None) (files w)
      \<lparr>chunkfile = name, level_attr = Some lv, blocks_attr = None, arrays = []\<rparr>
      None 0 0 cave = (s', r)"
    by (cases "chunk_render (\<lambda>b. None) (files w)
      \<lparr>chunkfile = name, level_attr = Some lv, blocks_attr = None, arrays = []\<rparr>
      None 0 0 cave")
  from chunk_render_no_sprites [OF b k, where d = "files w" and name = name and cave = cave]
  have "r = Inr []" by (simp add: c)
  then show ?thesis by (simp add: render_to_def Let_def c)
qed

lemma no_sprites_eq: "no_sprites = (\<lambda>b. None)"
  by (rule ext) (simp add: no_sprites_def)

lemma air_level_sizes:
  "length (Blocks air_level) = 16 * 16 * 128" "length (SkyLight air_level) = 16 * 16 * 64"
  by (simp_all add: air_level_def)

lemma blockid_example: "chunk_blockid ''c.0.0.dat'' = ''0.0''"
  by (simp add: chunk_blockid_def)

lemma dest_example:
  "dest_filename digest_stub ''c.0.0.dat'' cave lv =
     (if cave then ''img.0.0.cave.c0ffee.png'' else ''img.0.0.nocave.c0ffee.png'')"
  by (simp add: dest_filename_def blockid_example mode_name_def hash_blockarray_def digest_stub_def)

lemma miss_call_no_sprites:
  assumes l: "get_lvldata (files w) name = Inr lv"
    and c: "\<not> cached md5_hex name cave w"
    and b: "length (Blocks lv) = 16 * 16 * 128" and k: "length (SkyLight lv) = 16 * 16 * 64"
    and w0: "w0 = (if exists (files w) (dest_filename md5_hex name cave lv) then w
                   else remove_old (chunk_blockid name) cave (map fst (files w)) w)"
  shows "render_and_save md5_hex (\<lambda>b. None) name cave w =
     (save (dest_filename md5_hex name cave lv) [] (w0\<lparr>events := events w0 @ [Rendered]\<rparr>),
      Inr (dest_filename md5_hex name cave lv))"
  unfolding render_and_save_miss [OF l c] render_to_no_sprites [OF b k] w0 ..

lemmas example_simps = dest_example exists_def blockid_example is_old_image_def cache_prefix_def
  mode_name_def startswith_def endswith_def save_def unlink_def get_lvldata_def cached_def

lemma cold_call:
  "render_and_save digest_stub no_sprites ''c.0.0.dat'' False
     \<lparr>files = [(''c.0.0.dat'', ChunkData air_level)], events = []\<rparr> =
   (\<lparr>files = [(''c.0.0.dat'', ChunkData air_level),
              (''img.0.0.nocave.c0ffee.png'', ImageFile [])],
     events = [Rendered, Saved ''img.0.0.nocave.c0ffee.png'']\<rparr>,
    Inr ''img.0.0.nocave.c0ffee.png'')"
  unfolding no_sprites_eq
  by (subst miss_call_no_sprites [where lv = air_level, OF _ _ air_level_sizes refl])
    (simp_all add: example_simps)

lemma cold_call_cave:
  "render_and_save digest_stub no_sprites ''c.0.0.dat'' True
     \<lparr>files = [(''c.0.0.dat'', ChunkData air_level)], events = []\<rparr> =
   (\<lparr>files = [(''c.0.0.dat'', ChunkData air_level),
              (''img.0.0.cave.c0ffee.png'', ImageFile [])],
     events = [Rendered, Saved ''img.0.0.cave.c0ffee.png'']\<rparr>,
    Inr ''img.0.0.cave.c0ffee.png'')"
  unfolding no_sprites_eq
  by (subst miss_call_no_sprites [where lv = air_level, OF _ _ air_level_sizes refl])
    (simp_all add: example_simps)

lemma two_stale_call:
  "render_and_save digest_stub no_sprites ''c.0.0.dat'' False
     \<lparr>files = [(''c.0.0.dat'', ChunkData air_level),
               (''img.0.0.nocave.aaaaaa.png'', ImageFile []),
               (''img.0.0.nocave.bbbbbb.png'', ImageFile [])], events = []\<rparr> =
   (\<lparr>files = [(''c.0.0.dat'', ChunkData air_level),
              (''img.0.0.nocave.bbbbbb.png'', ImageFile []),
              (''img.0.0.nocave.c0ffee.png'', ImageFile [])],
     events = [Unlinked ''img.0.0.nocave.aaaaaa.png'', Rendered,
               Saved ''img.0.0.nocave.c0ffee.png'']\<rparr>,
    Inr ''img.0.0.nocave.c0ffee.png'')"
  unfolding no_sprites_eq
  by (subst miss_call_no_sprites [where lv = air_level, OF _ _ air_level_sizes refl])
    (simp_all add: example_simps)

lemma warm_call:
  "render_and_save digest_stub no_sprites ''c.0.0.dat'' False
     \<lparr>files = [(''c.0.0.dat'', ChunkData air_level),
               (''img.0.0.nocave.c0ffee.png'', ImageFile [])], events = []\<rparr> =
   (\<lparr>files = [(''c.0.0.dat'', ChunkData air_level),
               (''img.0.0.nocave.c0ffee.png'', ImageFile [])], events = []\<rparr>,
    Inr ''img.0.0.nocave.c0ffee.png'')"
  by (subst render_and_save_hit [where lv = air_level and img = "[]"])
    (simp_all add: example_simps)

subsection \<open>The cave corner\<close>

lemma corner_flat_index:
  assumes g: "in_grid (x, y, z)" and n: "(x, y, z) \<noteq> (0, 15, 127)"
  shows "(nat x * 16 + nat y) * 128 + nat z \<noteq> 2047"
proof
  assume e: "(nat x * 16 + nat y) * 128 + nat z = 2047"
  have d: "(2047 :: nat) div 128 = 15" "(2047 :: nat) mod 128 = 127" by simp_all
  from flat_div_mod [OF g] have f: "15 = nat x * 16 + nat y" "127 = nat z"
    unfolding e d .
  have 1: "nat x * 16 + nat y = 15" by (rule f(1) [symmetric])
  have 2: "nat z = 127" by (rule f(2) [symmetric])
  from g have "0 \<le> x" "0 \<le> y" "0 \<le> z" "y < 16" by (simp_all add: in_grid_def)
  have 3: "nat x = 0" using 1 by arith
  with 1 have 4: "nat y = 15" by simp
  from 2 3 4 \<open>0 \<le> x\<close> \<open>0 \<le> y\<close> \<open>0 \<le> z\<close>
  have "x = 0 \<and> y = 15 \<and> z = 127" by (simp add: nat_eq_iff)
  with n show False by simp
qed

lemma corner_air:
  assumes g: "in_grid (x, y, z)" and n: "(x, y, z) \<noteq> (0, 15, 127)"
  shows "snd (render_block cave (Blocks corner_level) stone_sprite x y z imgx imgy) = Inr []"
proof -
  have "(replicate (16 * 16 * 128) (0 :: byte))[2047 := 1] ! ((nat x * 16 + nat y) * 128 + nat z) = 0"
    using corner_flat_index [OF g n] flat_index_less [OF g] by simp
  then show ?thesis
    by (simp add: render_block_def read_block_def getitem3_block_in [OF g] then_do_def
        done_with_def corner_level_def stone_sprite_def)
qed

lemma paint_all_corner_air:
  "list_all (\<lambda>idx. in_grid idx \<and> idx \<noteq> (0, 15, 127)) l \<Longrightarrow>
   paint_all cave (Blocks corner_level) stone_sprite xoff yoff l img = Inr img"
proof (induction l)
  case Nil
  show ?case by simp
next
  case (Cons idx l)
  obtain x y z where i: "idx = (x, y, z)" by (cases idx)
  from Cons.prems have g: "in_grid (x, y, z)" and n: "(x, y, z) \<noteq> (0, 15, 127)"
    and r: "list_all (\<lambda>idx. in_grid idx \<and> idx \<noteq> (0, 15, 127)) l"
    by (simp_all add: i)
  show ?case
    by (simp add: i corner_air [OF g n] Cons.IH [OF r] split: prod.splits)
qed

lemma xrange_16_rev: "rev (xrange 16) = map int (rev [1..<16]) @ [0]"
proof -
  have "[0..<16] = 0 # [1..<16]" by (simp add: upt_conv_Cons)
  then show ?thesis by (simp only: xrange_def rev_map rev.simps) simp
qed

lemma xrange_16_last: "xrange 16 = map int [0..<15] @ [15]"
proof -
  have "[0..<Suc 15] = [0..<15] @ [15]" by (rule upt_Suc_append) simp
  moreover have "Suc 15 = 16" by simp
  ultimately have "[0..<16] = [0..<15] @ [15]" by simp
  then show ?thesis by (simp only: xrange_def) simp
qed

lemma xrange_128_last: "xrange 128 = map int [0..<127] @ [127]"
proof -
  have "[0..<Suc 127] = [0..<127] @ [127]" by (rule upt_Suc_append) simp
  moreover have "Suc 127 = 128" by simp
  ultimately have "[0..<128] = [0..<127] @ [127]" by simp
  then show ?thesis by (simp only: xrange_def) simp
qed

lemma traversal_corner_last:
  "\<exists>l. traversal = l @ [(0, 15, 127)] \<and> list_all (\<lambda>idx. in_grid idx \<and> idx \<noteq> (0, 15, 127)) l"
proof -
  let ?col = "\<lambda>x y. map (\<lambda>z. (x, y, z)) (xrange 128)"
  let ?slab = "\<lambda>x. concat (map (?col x) (xrange 16))"
  let ?a = "concat (map ?slab (map int (rev [1..<16])))"
  let ?b = "concat (map (?col 0) (map int [0..<15]))"
  let ?c = "map (\<lambda>z. (0, 15, z)) (map int [0..<127])"
  have 1: "?col 0 15 = ?c @ [(0, 15, 127)]"
    by (simp only: xrange_128_last) simp
  have 2: "?slab 0 = ?b @ ?col 0 15"
    by (subst xrange_16_last) simp
  have "traversal = ?a @ ?slab 0"
    by (simp only: traversal_def xrange_16_rev) simp
  then have t: "traversal = (?a @ ?b @ ?c) @ [(0, 15, 127)]"
    by (simp only: 1 2 append_assoc)
  have a: "list_all (\<lambda>idx. in_grid idx \<and> idx \<noteq> (0, 15, 127)) ?a"
    by (auto simp add: list_all_iff xrange_def in_grid_def)
  have b: "list_all (\<lambda>idx. in_grid idx \<and> idx \<noteq> (0, 15, 127)) ?b"
    by (auto simp add: list_all_iff xrange_def in_grid_def)
  have c: "list_all (\<lambda>idx. in_grid idx \<and> idx \<noteq> (0, 15, 127)) ?c"
    by (auto simp add: list_all_iff in_grid_def)
  from t a b c show ?thesis by (intro exI [of _ "?a @ ?b @ ?c"]) simp
qed


lemma corner_block_raises:
  "snd (render_block True (Blocks corner_level) stone_sprite 0 15 127 imgx imgy) = Inl IndexError"
  by (simp add: corner_level_def stone_sprite_def render_block_def then_do_def read_block_def
      getitem3_def block_shape_def norm_index_def occluded_def not_transparent_def done_with_def)

lemma render_grid_corner_raises:
  "render_grid True (Blocks corner_level) stone_sprite xoff yoff img = Inl IndexError"
proof -
  from traversal_corner_last obtain l where
    t: "traversal = l @ [(0, 15, 127)]"
    and a: "list_all (\<lambda>idx. in_grid idx \<and> idx \<noteq> (0, 15, 127)) l"
    by blast
  show ?thesis
    unfolding render_grid_closed t paint_all_append paint_all_corner_air [OF a]
    by (simp add: corner_block_raises split: prod.splits)
qed

lemma cave_blocks_dark:
  assumes "length blocks = 16 * 16 * 128"
  shows "cave_blocks blocks (replicate (16 * 16 * 64) 0) = blocks"
proof (rule nth_equalityI)
  show "length (cave_blocks blocks (replicate (16 * 16 * 64) 0)) = length blocks"
    using assms by (simp add: cave_blocks_def length_mask_assign length_skylight_expand)
next
  fix i assume "i < length (cave_blocks blocks (replicate (16 * 16 * 64) 0))"
  then have i: "i < 32768"
    by (simp add: cave_blocks_def length_mask_assign length_skylight_expand)
  have l: "length (replicate (16 * 16 * 64) (0 :: byte)) = 16384" by simp
  have b: "length blocks = 32768" using assms by simp
  have "i div 128 < 256" using i by simp
  then have "i div 128 * 64 \<le> 255 * 64" by simp
  moreover have "i mod 128 div 2 < 64" by simp
  ultimately have k: "i div 128 * 64 + i mod 128 div 2 < 16 * 16 * 64" by simp
  have "skylight_expand (replicate (16 * 16 * 64) 0) ! i = 0"
    unfolding nth_skylight_expand [OF i l] nth_replicate [OF k] by simp
  then show "cave_blocks blocks (replicate (16 * 16 * 64) 0) ! i = blocks ! i"
    unfolding nth_cave_blocks [OF i b] by simp
qed

lemma render_to_raises:
  assumes "snd (chunk_render bm (files w) s None 0 0 cave) = Inl e"
  shows "snd (render_to bm dest cave s w) = (w\<lparr>events := events w @ [Rendered]\<rparr>, Inl e)"
proof -
  obtain s' r where c: "chunk_render bm (files w) s None 0 0 cave = (s', r)"
    by (cases "chunk_render bm (files w) s None 0 0 cave")
  with assms have "r = Inl e" by simp
  then show ?thesis by (simp add: render_to_def Let_def c)
qed

lemma corner_call_raises:
  "render_and_save digest_stub stone_sprite ''c.0.0.dat'' True
     \<lparr>files = [(''c.0.0.dat'', ChunkData corner_level)], events = []\<rparr> =
   (\<lparr>files = [(''c.0.0.dat'', ChunkData corner_level)], events = [Rendered]\<rparr>, Inl IndexError)"
proof -
  let ?w = "\<lparr>files = [(''c.0.0.dat'', ChunkData corner_level)], events = []\<rparr> :: nat world"
  let ?s = "\<lparr>chunkfile = ''c.0.0.dat'', level_attr = Some corner_level, blocks_attr = None,
             arrays = []\<rparr>"
  have l: "get_lvldata (files ?w) ''c.0.0.dat'' = Inr corner_level"
    by (simp add: get_lvldata_def)
  have c: "\<not> cached digest_stub ''c.0.0.dat'' True ?w"
    by (simp add: example_simps)
  have w: "wf_renderer ?s" by (simp add: wf_renderer_def)
  have b: "current_blocks (files ?w) ?s = Inr (Blocks corner_level)"
    by (simp add: current_blocks_def load_blocks_def load_level_def get_blockarray_def reshape_def
        corner_level_def)
  have v: "snd (load_level (files ?w) ?s) = Inr corner_level"
    by (simp add: load_level_def)
  have k: "get_skylight_array corner_level = Inr (replicate (16 * 16 * 64) 0)"
    by (simp add: get_skylight_array_def reshape_def corner_level_def)
  have n: "length (Blocks corner_level) = 16 * 16 * 128"
    by (simp add: corner_level_def)
  have "snd (chunk_render stone_sprite (files ?w) ?s None 0 0 True) = Inl IndexError"
    unfolding chunk_render_cave_result [OF w b v k] cave_blocks_dark [OF n]
    by (rule render_grid_corner_raises)
  from render_to_raises [OF this, of "''img.0.0.cave.c0ffee.png''"]
  show ?thesis
    unfolding render_and_save_miss [OF l c]
    by (simp add: example_simps)
qed

text \<open>
  C1. The claim that no evaluation of the occlusion test indexes outside the grid fails in
  cave mode at the corner \<open>(0, 15, 127)\<close>: the third branch of the chain tests \<open>y == 15\<close>
  and \<open>x == 0\<close> but not \<open>z != 127\<close>, as its two siblings do, and reads \<open>blocks[0, 15, 128]\<close>.
  For a chunk of air with one block that has a sprite at that corner, the body reads
  \<open>(0, 15, 127)\<close>, then \<open>(0, 15, 128)\<close>, and ends with IndexError, and so does the whole
  call. (Everywhere else, and everywhere in normal mode, the reads stay inside the grid:
  \<open>reads_render_block_normal\<close>, \<open>reads_render_block_cave\<close>.)
\<close>

theorem cave_corner_reads_outside:
  "in_grid (0, 15, 127) \<and> \<not> in_grid (0, 15, 128)
   \<and> render_block True (Blocks corner_level) stone_sprite 0 15 127 imgx imgy =
       ([(0, 15, 127), (0, 15, 128)], Inl IndexError)
   \<and> render_and_save digest_stub stone_sprite ''c.0.0.dat'' True
       \<lparr>files = [(''c.0.0.dat'', ChunkData corner_level)], events = []\<rparr> =
     (\<lparr>files = [(''c.0.0.dat'', ChunkData corner_level)], events = [Rendered]\<rparr>,
      Inl IndexError)"
proof -
  have "render_block True (Blocks corner_level) stone_sprite 0 15 127 imgx imgy =
       ([(0, 15, 127), (0, 15, 128)], Inl IndexError)"
    by (simp add: corner_level_def stone_sprite_def render_block_def then_do_def read_block_def
        getitem3_def block_shape_def norm_index_def occluded_def not_transparent_def
        done_with_def)
  then show ?thesis
    using corner_call_raises by (simp add: in_grid_def)
qed

subsection \<open>The cache\<close>

text \<open>
  C5 (as amended). A call unlinks at most one file, and does so before it renders: what it
  appends to the log is first the unlink of the first name of the listing that starts with
  the chunk's prefix and ends with \<open>.png\<close> (if the expected cache file is absent and there
  is such a name; the loop is left by \<open>break\<close> after the first unlink), then, if a render
  is needed, the render and, if it succeeds, the save. So if the directory held at most
  one cache file of the chunk and mode before the call, it holds at most one after it.
\<close>

theorem stale_cleanup_first_only:
  "events (fst (render_and_save md5_hex blockmap name cave w)) =
     events w
     @ (if expected_missing md5_hex name cave w
        then map Unlinked
               (take 1 (filter (is_old_image (chunk_blockid name) cave) (map fst (files w))))
        else [])
     @ (if render_needed md5_hex name cave w
        then Rendered #
               (case snd (render_and_save md5_hex blockmap name cave w) of
                  Inl e \<Rightarrow> []
                | Inr p \<Rightarrow> [Saved p])
        else [])
   \<and> (cache_count (chunk_blockid name) cave (files w) \<le> 1 \<longrightarrow>
        cache_count (chunk_blockid name) cave
          (files (fst (render_and_save md5_hex blockmap name cave w))) \<le> 1)"
proof (cases "get_lvldata (files w) name")
  case (Inl e)
  have "render_and_save md5_hex blockmap name cave w = (w, Inl ValueError)
      \<or> render_and_save md5_hex blockmap name cave w = (w, Inl e)"
    using render_and_save_missing [of w name md5_hex blockmap cave]
      render_and_save_unreadable [OF _ Inl, of md5_hex blockmap cave]
    by blast
  then have "fst (render_and_save md5_hex blockmap name cave w) = w" by auto
  then show ?thesis by (simp add: expected_missing_def render_needed_def Inl)
next
  case (Inr lv)
  define dest where "dest = dest_filename md5_hex name cave lv"
  define blockid where "blockid = chunk_blockid name"
  have od: "is_old_image blockid cave dest"
    unfolding dest_def blockid_def by (rule dest_is_old_image)
  have em: "expected_missing md5_hex name cave w = (\<not> exists (files w) dest)"
    by (simp add: expected_missing_def Inr dest_def)
  have rn: "render_needed md5_hex name cave w = (\<not> cached md5_hex name cave w)"
    by (simp add: render_needed_def Inr)
  show ?thesis
  proof (cases "cached md5_hex name cave w")
    case True
    then obtain img where d: "map_of (files w) (dest_filename md5_hex name cave lv) = Some (ImageFile img)"
      by (auto simp add: cached_def Inr split: option.splits content.splits)
    then have "exists (files w) dest" by (simp add: exists_def dest_def)
    moreover from render_and_save_hit [OF Inr d, of blockmap]
    have "fst (render_and_save md5_hex blockmap name cave w) = w" by simp
    ultimately show ?thesis using True by (simp add: em rn)
  next
    case False
    define w0 where "w0 = (if exists (files w) dest then w
               else remove_old blockid cave (map fst (files w)) w)"
    define s where "s = \<lparr>chunkfile = name, level_attr = Some lv, blocks_attr = None, arrays = []\<rparr>"
    define w1 where "w1 = w0\<lparr>events := events w0 @ [Rendered]\<rparr>"
    define U where "U = (if \<not> exists (files w) dest
          then map Unlinked (take 1 (filter (is_old_image blockid cave) (map fst (files w))))
          else [])"
    have m: "render_and_save md5_hex blockmap name cave w = snd (render_to blockmap dest cave s w0)"
      unfolding dest_def s_def w0_def blockid_def using False by (rule render_and_save_miss [OF Inr])
    have u: "events w0 = events w @ U"
      unfolding w0_def U_def by (simp add: cleanup_events)
    have x: "exists (files w0) dest = exists (files w) dest"
      unfolding w0_def using cleanup_miss(1) [OF _ od, of w] by simp
    have c: "cache_count blockid cave (files w0) \<le> 1
        \<and> (\<not> exists (files w) dest \<longrightarrow> cache_count blockid cave (files w0) = 0)"
      if "cache_count blockid cave (files w) \<le> 1"
      unfolding w0_def using cleanup_miss(2) [OF _ od that] that by simp
    have f1: "files w1 = files w0" and e1: "events w1 = events w @ U @ [Rendered]"
      unfolding w1_def by (simp_all add: u)
    have r: "(\<exists>e. render_and_save md5_hex blockmap name cave w = (w1, Inl e))
        \<or> (\<exists>img. render_and_save md5_hex blockmap name cave w = (save dest img w1, Inr dest))"
      unfolding m w1_def by (rule render_to_cases [of blockmap dest cave s w0]) auto
    have goal1: "events (fst (render_and_save md5_hex blockmap name cave w)) =
        events w @ U @ Rendered #
          (case snd (render_and_save md5_hex blockmap name cave w) of
             Inl e \<Rightarrow> [] | Inr p \<Rightarrow> [Saved p])"
      using r by (auto simp add: e1 events_save)
    have goal2: "cache_count blockid cave
          (files (fst (render_and_save md5_hex blockmap name cave w))) \<le> 1"
      if "cache_count blockid cave (files w) \<le> 1"
      using r c [OF that] od by (auto simp add: cache_count_save f1 x)
    show ?thesis
      using goal1 goal2 False
      by (simp add: em rn U_def blockid_def [symmetric])
  qed
qed

text \<open>
  The claim as stated fails when two stale cache files exist: the first is unlinked, the
  second stays, and two cache files of the chunk and mode remain after the call.
\<close>

theorem stale_cleanup_counterexample:
  "expected_missing digest_stub ''c.0.0.dat'' False
     \<lparr>files = [(''c.0.0.dat'', ChunkData air_level),
               (''img.0.0.nocave.aaaaaa.png'', ImageFile ([] :: nat canvas)),
               (''img.0.0.nocave.bbbbbb.png'', ImageFile [])], events = []\<rparr>
   \<and> exists
       (files (fst (render_and_save digest_stub no_sprites ''c.0.0.dat'' False
          \<lparr>files = [(''c.0.0.dat'', ChunkData air_level),
                    (''img.0.0.nocave.aaaaaa.png'', ImageFile []),
                    (''img.0.0.nocave.bbbbbb.png'', ImageFile [])], events = []\<rparr>)))
       ''img.0.0.nocave.bbbbbb.png''
   \<and> cache_count (chunk_blockid ''c.0.0.dat'') False
       (files (fst (render_and_save digest_stub no_sprites ''c.0.0.dat'' False
          \<lparr>files = [(''c.0.0.dat'', ChunkData air_level),
                    (''img.0.0.nocave.aaaaaa.png'', ImageFile []),
                    (''img.0.0.nocave.bbbbbb.png'', ImageFile [])], events = []\<rparr>))) = 2"
  unfolding two_stale_call
  by (simp add: expected_missing_def cache_count_def example_simps)

lemma one_stale_call:
  "render_and_save digest_stub no_sprites ''c.0.0.dat'' False
     \<lparr>files = [(''c.0.0.dat'', ChunkData air_level),
               (''img.0.0.nocave.aaaaaa.png'', ImageFile [])], events = []\<rparr> =
   (\<lparr>files = [(''c.0.0.dat'', ChunkData air_level),
              (''img.0.0.nocave.c0ffee.png'', ImageFile [])],
     events = [Unlinked ''img.0.0.nocave.aaaaaa.png'', Rendered,
               Saved ''img.0.0.nocave.c0ffee.png'']\<rparr>,
    Inr ''img.0.0.nocave.c0ffee.png'')"
  unfolding no_sprites_eq
  by (subst miss_call_no_sprites [where lv = air_level, OF _ _ air_level_sizes refl])
    (simp_all add: example_simps)

theorem stale_cleanup_first_only_witness:
  "cache_count (chunk_blockid ''c.0.0.dat'') False
     (files \<lparr>files = [(''c.0.0.dat'', ChunkData air_level),
                      (''img.0.0.nocave.aaaaaa.png'', ImageFile ([] :: nat canvas))],
             events = []\<rparr>) \<le> 1
   \<and> cache_count (chunk_blockid ''c.0.0.dat'') False
       (files (fst (render_and_save digest_stub no_sprites ''c.0.0.dat'' False
          \<lparr>files = [(''c.0.0.dat'', ChunkData air_level),
                    (''img.0.0.nocave.aaaaaa.png'', ImageFile [])], events = []\<rparr>))) \<le> 1
   \<and> events (fst (render_and_save digest_stub no_sprites ''c.0.0.dat'' False
          \<lparr>files = [(''c.0.0.dat'', ChunkData air_level),
                    (''img.0.0.nocave.aaaaaa.png'', ImageFile [])], events = []\<rparr>)) =
       [Unlinked ''img.0.0.nocave.aaaaaa.png'', Rendered, Saved ''img.0.0.nocave.c0ffee.png'']"
proof -
  let ?w = "\<lparr>files = [(''c.0.0.dat'', ChunkData air_level),
                      (''img.0.0.nocave.aaaaaa.png'', ImageFile ([] :: nat canvas))],
             events = []\<rparr>"
  have h: "cache_count (chunk_blockid ''c.0.0.dat'') False (files ?w) \<le> 1"
    by (simp add: cache_count_def example_simps)
  have m: "expected_missing digest_stub ''c.0.0.dat'' False ?w"
    by (simp add: expected_missing_def example_simps)
  have n: "render_needed digest_stub ''c.0.0.dat'' False ?w"
    by (simp add: render_needed_def example_simps)
  have r: "snd (render_and_save digest_stub no_sprites ''c.0.0.dat'' False ?w) =
      Inr ''img.0.0.nocave.c0ffee.png''"
    by (simp add: one_stale_call)
  note t = stale_cleanup_first_only [of digest_stub no_sprites "''c.0.0.dat''" False ?w]
  have "events (fst (render_and_save digest_stub no_sprites ''c.0.0.dat'' False ?w)) =
       [Unlinked ''img.0.0.nocave.aaaaaa.png'', Rendered, Saved ''img.0.0.nocave.c0ffee.png'']"
    unfolding t [THEN conjunct1] r using m n by (simp add: example_simps)
  with t [THEN conjunct2, rule_format, OF h] h
  show ?thesis by blast
qed

lemma after_first_call:
  assumes png: "\<not> endswith name ''.png''"
    and first: "render_and_save md5_hex blockmap name cave w = (w1, Inr p)"
  obtains lv img where
    "get_lvldata (files w) name = Inr lv"
    "get_lvldata (files w1) name = Inr lv"
    "p = dest_filename md5_hex name cave lv"
    "map_of (files w1) p = Some (ImageFile img)"
    "renders (events w1) = renders (events w) + (if cached md5_hex name cave w then 0 else 1)"
    "saves (events w1) = saves (events w) + (if cached md5_hex name cave w then 0 else 1)"
proof -
  have ex: "exists (files w) name"
  proof (rule ccontr)
    assume "\<not> exists (files w) name"
    from render_and_save_missing [OF this, of md5_hex blockmap cave] first
    show False by simp
  qed
  obtain lv where lv: "get_lvldata (files w) name = Inr lv"
  proof (cases "get_lvldata (files w) name")
    case (Inl e)
    from render_and_save_unreadable [OF ex Inl, of md5_hex blockmap cave] first
    have False by simp
    then show ?thesis ..
  next
    case (Inr lv)
    then show ?thesis by (rule that)
  qed
  define dest where "dest = dest_filename md5_hex name cave lv"
  have ne: "name \<noteq> dest"
    using png dest_is_png [of md5_hex name cave lv] unfolding dest_def by auto
  show ?thesis
  proof (cases "cached md5_hex name cave w")
    case True
    then obtain img where d: "map_of (files w) (dest_filename md5_hex name cave lv) = Some (ImageFile img)"
      by (auto simp add: cached_def lv split: option.splits content.splits)
    from render_and_save_hit [OF lv this, of blockmap] first
    have "w1 = w" and "p = dest_filename md5_hex name cave lv" by simp_all
    with lv d True show ?thesis by (intro that [of lv img]) simp_all
  next
    case False
    define w0 where "w0 = (if exists (files w) dest then w
               else remove_old (chunk_blockid name) cave (map fst (files w)) w)"
    define s where "s = \<lparr>chunkfile = name, level_attr = Some lv, blocks_attr = None, arrays = []\<rparr>"
    have m: "render_and_save md5_hex blockmap name cave w = snd (render_to blockmap dest cave s w0)"
      unfolding dest_def s_def w0_def using False by (rule render_and_save_miss [OF lv])
    have k: "map_of (files w0) name = map_of (files w) name"
      unfolding w0_def by (simp add: remove_old_keeps [OF png])
    have e: "renders (events w0) = renders (events w)" "saves (events w0) = saves (events w)"
      unfolding w0_def by (simp_all add: remove_old_events)
    show ?thesis
    proof (rule render_to_cases [of blockmap dest cave s w0])
      fix s' e
      assume "render_to blockmap dest cave s w0 =
          (s', w0\<lparr>events := events w0 @ [Rendered]\<rparr>, Inl e)"
      then have "render_and_save md5_hex blockmap name cave w =
          (w0\<lparr>events := events w0 @ [Rendered]\<rparr>, Inl e)"
        unfolding m by simp
      from trans [OF first [symmetric] this] show ?thesis by simp
    next
      fix s' img
      assume "render_to blockmap dest cave s w0 =
          (s', save dest img (w0\<lparr>events := events w0 @ [Rendered]\<rparr>), Inr dest)"
      then have "render_and_save md5_hex blockmap name cave w =
          (save dest img (w0\<lparr>events := events w0 @ [Rendered]\<rparr>), Inr dest)"
        unfolding m by simp
      from trans [OF first [symmetric] this]
      have w1: "w1 = save dest img (w0\<lparr>events := events w0 @ [Rendered]\<rparr>)"
        and p: "p = dest"
        by simp_all
      have "map_of (files w1) name = map_of (files w) name"
        unfolding w1 using ne k by (simp add: map_of_save)
      then have "get_lvldata (files w1) name = get_lvldata (files w) name"
        by (rule get_lvldata_cong)
      then have l1: "get_lvldata (files w1) name = Inr lv"
        using lv by simp
      have d1: "map_of (files w1) p = Some (ImageFile img)"
        unfolding w1 p by (simp add: map_of_save)
      have ev: "events w1 = events w0 @ [Rendered, Saved dest]"
        unfolding w1 by (simp add: events_save)
      have r: "renders (events w1) = renders (events w) + 1"
        unfolding ev renders_append e by (simp add: renders_def)
      have v: "saves (events w1) = saves (events w) + 1"
        unfolding ev saves_append e by (simp add: saves_def)
      from lv l1 p d1 r v False show ?thesis
        unfolding dest_def by (intro that [of lv img]) simp_all
    qed
  qed
qed

text \<open>
  C6 (as amended). If the first of two calls returns a path (and the chunk file is not
  itself named \<open>*.png\<close>), the second call returns the same path and changes nothing: no
  render, no save, no unlink. The first call renders and saves exactly once when the
  expected cache file was absent or undecodable, and not at all when it was present and
  decodable.
\<close>

theorem second_call_is_hit:
  assumes png: "\<not> endswith name ''.png''"
    and first: "render_and_save md5_hex blockmap name cave w = (w1, Inr p)"
  shows "render_and_save md5_hex blockmap name cave w1 = (w1, Inr p)
       \<and> renders (events w1) = renders (events w) + (if cached md5_hex name cave w then 0 else 1)
       \<and> saves (events w1) = saves (events w) + (if cached md5_hex name cave w then 0 else 1)"
proof -
  from after_first_call [OF png first] obtain lv img where
    l1: "get_lvldata (files w1) name = Inr lv"
    and p: "p = dest_filename md5_hex name cave lv"
    and d1: "map_of (files w1) p = Some (ImageFile img)"
    and r: "renders (events w1) = renders (events w) + (if cached md5_hex name cave w then 0 else 1)"
    and v: "saves (events w1) = saves (events w) + (if cached md5_hex name cave w then 0 else 1)"
    by blast
  have "render_and_save md5_hex blockmap name cave w1 = (w1, Inr p)"
    using d1 unfolding p by (rule render_and_save_hit [OF l1])
  with r v show ?thesis by blast
qed

theorem second_call_is_hit_witness:
  "\<not> endswith ''c.0.0.dat'' ''.png''
   \<and> render_and_save digest_stub no_sprites ''c.0.0.dat'' False
       \<lparr>files = [(''c.0.0.dat'', ChunkData air_level)], events = []\<rparr> =
     (\<lparr>files = [(''c.0.0.dat'', ChunkData air_level),
                (''img.0.0.nocave.c0ffee.png'', ImageFile [])],
       events = [Rendered, Saved ''img.0.0.nocave.c0ffee.png'']\<rparr>,
      Inr ''img.0.0.nocave.c0ffee.png'')
   \<and> render_and_save digest_stub no_sprites ''c.0.0.dat'' False
       \<lparr>files = [(''c.0.0.dat'', ChunkData air_level),
                 (''img.0.0.nocave.c0ffee.png'', ImageFile [])],
        events = [Rendered, Saved ''img.0.0.nocave.c0ffee.png'']\<rparr> =
     (\<lparr>files = [(''c.0.0.dat'', ChunkData air_level),
                (''img.0.0.nocave.c0ffee.png'', ImageFile [])],
       events = [Rendered, Saved ''img.0.0.nocave.c0ffee.png'']\<rparr>,
      Inr ''img.0.0.nocave.c0ffee.png'')"
proof -
  have png: "\<not> endswith ''c.0.0.dat'' ''.png''"
    by (simp add: endswith_def)
  from second_call_is_hit [OF png cold_call, THEN conjunct1] png cold_call
  show ?thesis by blast
qed

text \<open>
  The claim as stated fails when the cache file is already present and decodable before
  the first call: the two calls together render nothing and save nothing.
\<close>

theorem second_call_counterexample:
  "cached digest_stub ''c.0.0.dat'' False
     \<lparr>files = [(''c.0.0.dat'', ChunkData air_level),
               (''img.0.0.nocave.c0ffee.png'', ImageFile ([] :: nat canvas))], events = []\<rparr>
   \<and> renders (events (fst (render_and_save digest_stub no_sprites ''c.0.0.dat'' False
         (fst (render_and_save digest_stub no_sprites ''c.0.0.dat'' False
            \<lparr>files = [(''c.0.0.dat'', ChunkData air_level),
                      (''img.0.0.nocave.c0ffee.png'', ImageFile [])], events = []\<rparr>))))) = 0
   \<and> saves (events (fst (render_and_save digest_stub no_sprites ''c.0.0.dat'' False
         (fst (render_and_save digest_stub no_sprites ''c.0.0.dat'' False
            \<lparr>files = [(''c.0.0.dat'', ChunkData air_level),
                      (''img.0.0.nocave.c0ffee.png'', ImageFile [])], events = []\<rparr>))))) = 0"
  by (simp add: warm_call renders_def saves_def cached_def get_lvldata_def dest_example)

lemma same_blocks_same_name:
  "Blocks lv' = Blocks lv \<Longrightarrow>
   dest_filename md5_hex name cave lv' = dest_filename md5_hex name cave lv"
  by (simp add: dest_filename_def hash_blockarray_def)

lemma map_of_put_chunk:
  "map_of (files (put_chunk name lv w)) m =
     (if m = name \<and> map_of (files w) name \<noteq> None then Some (ChunkData lv) else map_of (files w) m)"
  by (simp add: put_chunk_def map_of_replace)

text \<open>
  C10. The hash, and so the name of the cache file, depends on the \<open>Blocks\<close> buffer only:
  after a call that returned a path, if the chunk file is rewritten with level data that
  has the same \<open>Blocks\<close> (whatever its \<open>SkyLight\<close>), the next call, in cave mode as in
  normal mode, returns the same path and renders nothing.
\<close>

theorem skylight_change_keeps_cache:
  assumes png: "\<not> endswith name ''.png''"
    and first: "render_and_save md5_hex blockmap name cave w = (w1, Inr p)"
    and level: "get_lvldata (files w) name = Inr lv0"
    and same: "Blocks lv' = Blocks lv0"
  shows "hash_blockarray md5_hex lv' = hash_blockarray md5_hex lv0
       \<and> render_and_save md5_hex blockmap name cave (put_chunk name lv' w1) =
           (put_chunk name lv' w1, Inr p)"
proof -
  from after_first_call [OF png first] obtain lv img where
    l: "get_lvldata (files w) name = Inr lv"
    and l1: "get_lvldata (files w1) name = Inr lv"
    and p: "p = dest_filename md5_hex name cave lv"
    and d1: "map_of (files w1) p = Some (ImageFile img)"
    by blast
  have b: "Blocks lv' = Blocks lv" using same l level by simp
  have ne: "p \<noteq> name"
    using png dest_is_png [of md5_hex name cave lv] unfolding p by auto
  have "map_of (files w1) name \<noteq> None"
    using get_lvldata_exists [OF l1] by (simp add: exists_def)
  then have "map_of (files (put_chunk name lv' w1)) name = Some (ChunkData lv')"
    by (simp add: map_of_put_chunk)
  then have l2: "get_lvldata (files (put_chunk name lv' w1)) name = Inr lv'"
    by (simp add: get_lvldata_def)
  have d2: "map_of (files (put_chunk name lv' w1)) (dest_filename md5_hex name cave lv') =
      Some (ImageFile img)"
    using ne d1 unfolding same_blocks_same_name [OF b] p by (simp add: map_of_put_chunk)
  have "render_and_save md5_hex blockmap name cave (put_chunk name lv' w1) =
           (put_chunk name lv' w1, Inr (dest_filename md5_hex name cave lv'))"
    by (rule render_and_save_hit [OF l2 d2])
  then show ?thesis
    unfolding p same_blocks_same_name [OF b] using same by (simp add: hash_blockarray_def)
qed

theorem skylight_change_keeps_cache_witness:
  "\<not> endswith ''c.0.0.dat'' ''.png''
   \<and> Blocks (air_level\<lparr>SkyLight := replicate (16 * 16 * 64) 255\<rparr>) = Blocks air_level
   \<and> SkyLight (air_level\<lparr>SkyLight := replicate (16 * 16 * 64) 255\<rparr>) \<noteq> SkyLight air_level
   \<and> render_and_save digest_stub no_sprites ''c.0.0.dat'' True
       \<lparr>files = [(''c.0.0.dat'', ChunkData (air_level\<lparr>SkyLight := replicate (16 * 16 * 64) 255\<rparr>)),
                 (''img.0.0.cave.c0ffee.png'', ImageFile [])],
        events = [Rendered, Saved ''img.0.0.cave.c0ffee.png'']\<rparr> =
     (\<lparr>files = [(''c.0.0.dat'', ChunkData (air_level\<lparr>SkyLight := replicate (16 * 16 * 64) 255\<rparr>)),
                (''img.0.0.cave.c0ffee.png'', ImageFile [])],
       events = [Rendered, Saved ''img.0.0.cave.c0ffee.png'']\<rparr>,
      Inr ''img.0.0.cave.c0ffee.png'')"
proof -
  have png: "\<not> endswith ''c.0.0.dat'' ''.png''"
    by (simp add: endswith_def)
  have l: "get_lvldata (files (\<lparr>files = [(''c.0.0.dat'', ChunkData air_level)], events = []\<rparr>
      :: nat world)) ''c.0.0.dat'' = Inr air_level"
    by (simp add: get_lvldata_def)
  have b: "Blocks (air_level\<lparr>SkyLight := replicate (16 * 16 * 64) 255\<rparr>) = Blocks air_level"
    by simp
  have k: "SkyLight (air_level\<lparr>SkyLight := replicate (16 * 16 * 64) 255\<rparr>) \<noteq> SkyLight air_level"
  proof
    assume "SkyLight (air_level\<lparr>SkyLight := replicate (16 * 16 * 64) 255\<rparr>) = SkyLight air_level"
    then have "replicate (16 * 16 * 64) (255 :: byte) ! 0 = replicate (16 * 16 * 64) 0 ! 0"
      by (simp add: air_level_def)
    then show False by simp
  qed
  from skylight_change_keeps_cache [OF png cold_call_cave l b, THEN conjunct2] png b k
  show ?thesis by (simp add: put_chunk_def)
qed

subsection \<open>The transparent blocks and the depth colours\<close>

text \<open>
  C8. The identifier 21 that the cave light mask writes is not in the set of transparent
  blocks, while 0 (air) and 20 (glass) are; so a cell that holds the marker counts as not
  transparent when the occlusion test looks at it.
\<close>

theorem hidden_marker_opaque:
  assumes "getitem3 block_shape blocks idx = Inr 21"
  shows "21 \<notin> transparent_blocks \<and> 0 \<in> transparent_blocks \<and> 20 \<in> transparent_blocks
       \<and> snd (not_transparent blocks idx) = Inr True"
  using assms
  by (simp add: transparent_blocks_def not_transparent_def read_block_def then_do_def
      done_with_def)

theorem hidden_marker_opaque_witness:
  "getitem3 block_shape (replicate (16 * 16 * 128) 21) (1, 2, 3) = Inr 21
   \<and> snd (not_transparent (replicate (16 * 16 * 128) 21) (1, 2, 3)) = Inr True"
proof -
  have h: "getitem3 block_shape (replicate (16 * 16 * 128) 21) (1, 2, 3) = Inr 21"
    by (simp add: getitem3_def block_shape_def norm_index_def)
  from hidden_marker_opaque [OF h] h show ?thesis by simp
qed

text \<open>
  C9. The table has 128 entries, starts at \<open>(255, 0, 0)\<close>, and every channel of every
  entry lies in \<open>[0, 255]\<close>.
\<close>

theorem depth_colors_in_range:
  "length generate_depthcolors = 128 \<and> generate_depthcolors ! 0 = (255, 0, 0)
   \<and> list_all channels_ok generate_depthcolors"
  unfolding generate_depthcolors_def by code_simp

end
